theory Spec2Isabelle
  imports
    Main
    "HOL-Library.Char_ord"
    "HOL-Library.List_Lexorder"
    "HOL-Library.Product_Lexorder"
    "HOL-Library.Multiset"
    "HOL-Library.AList"
begin

section \<open>Strings and the grouping classifier\<close>

text \<open>
  Go compares strings byte by byte, lexicographically. \<^typ>\<open>string\<close> is a list of
  bytes; the order on \<^typ>\<open>char\<close> is the order of the byte values and the order on
  lists is the lexicographic one, so \<open>(<)\<close> on \<^typ>\<open>string\<close> is Go's \<open><\<close>.
\<close>

text \<open>
  \<open>strings.Split(s, sep)\<close> for a separator of one byte: the pieces of \<open>s\<close> between
  the occurrences of the separator, in order. The result is never empty: a string
  without the separator gives one piece, the string itself.
\<close>

fun strings_Split :: "char \<Rightarrow> string \<Rightarrow> string list" where
  "strings_Split sep [] = [[]]"
| "strings_Split sep (c # cs) =
     (let rest = strings_Split sep cs
      in if c = sep then [] # rest else (c # hd rest) # tl rest)"

text \<open>
  \<^verbatim>\<open>
  func extractGroup(name string) string {
      parts := strings.Split(name, "-")
      if len(parts) >= 2 { return parts[0] }
      return "_other"
  }
  \<close>
\<close>

definition extractGroup :: "string \<Rightarrow> string" where
  "extractGroup name =
     (let parts = strings_Split (CHR ''-'') name
      in if length parts \<ge> 2 then parts ! 0 else ''_other'')"

section \<open>The file system\<close>

text \<open>
  The program reads and writes three places: the central store
  \<open>$HOME/.agents/skills\<close>, the directory of a provider, and the lock file. A directory
  holds named entries; for each entry the model keeps what the program can observe of
  it. \<open>Dir nonempty\<close> is a subdirectory (\<open>os.Remove\<close> refuses one that has children),
  \<open>Link target\<close> a symbolic link with the text it points to.
\<close>

datatype errno = ENOENT | EACCES | EEXIST | ENOTEMPTY | ENOTDIR

datatype node = File | Dir bool | Link string

fun IsDir :: "node \<Rightarrow> bool" where
  "IsDir (Dir nonempty) = True"
| "IsDir File = False"
| "IsDir (Link target) = False"

text \<open>
  A directory on disk: whether this process may list it and may change it, the mode it
  was created with, and its entries in no particular order.
\<close>

record directory =
  readable :: bool
  writable :: bool
  mode :: nat
  entries :: "(string \<times> node) list"

datatype dirstate = Missing | NotDirectory | Present directory

record LockEntry =
  Source :: string
  SourceType :: string
  SourceURL :: string
  SkillPath :: string
  SkillFolderHash :: string
  InstalledAt :: string
  UpdatedAt :: string

text \<open>
  \<open>Skills\<close> is a Go map: \<open>None\<close> is the nil map that \<open>json.Unmarshal\<close> leaves when
  the document has no \<open>skills\<close> member (or has \<open>null\<close> there); writing into it panics.
\<close>

record LockFile =
  Version :: int
  Skills :: "(string \<rightharpoonup> LockEntry) option"

text \<open>
  The bytes of a file are kept as what \<open>json.Unmarshal\<close> makes of them: either they do
  not parse, or they give a document. \<open>json.MarshalIndent\<close> followed by
  \<open>json.Unmarshal\<close> gives the document back, so a written document is stored as itself.
\<close>

datatype content = Garbage | Document LockFile

datatype filestate = NoFile | FileOf bool content

record filesystem =
  HOME :: string
  dirs :: "string \<Rightarrow> dirstate"
  creatable :: "string \<Rightarrow> bool"
  files :: "string \<Rightarrow> filestate"
  file_writable :: "string \<Rightarrow> bool"

text \<open>
  \<open>dirs\<close> and \<open>files\<close> are keyed by path. \<open>creatable path\<close> says whether the
  ancestors of a missing directory let \<open>os.MkdirAll\<close> create it, and
  \<open>file_writable path\<close> whether the file at \<open>path\<close> can be created or overwritten
  (its directory can be made and the file opened for writing).
\<close>

subsection \<open>Paths\<close>

text \<open>
  \<open>filepath.Join\<close> drops empty elements and joins the others with the separator. It
  also cleans the result; paths are only used as keys here and all of them are built by
  this one function, so the cleaning is left out.
\<close>

fun join_with :: "string \<Rightarrow> string list \<Rightarrow> string" where
  "join_with sep [] = []"
| "join_with sep [x] = x"
| "join_with sep (x # y # ys) = x @ sep @ join_with sep (y # ys)"

definition filepath_Join :: "string list \<Rightarrow> string" where
  "filepath_Join elems = join_with ''/'' (filter (\<lambda>e. e \<noteq> []) elems)"

text \<open>
  \<open>filepath.Rel(base, targ)\<close> on cleaned paths: drop the leading elements the two
  paths share, climb out of what is left of \<open>base\<close> and descend into what is left of
  \<open>targ\<close>. The library function fails when one path is absolute and the other is
  not; the two paths of every call in this program start with the same home directory.
\<close>

fun drop_common :: "'a list \<Rightarrow> 'a list \<Rightarrow> 'a list \<times> 'a list" where
  "drop_common (x # xs) (y # ys) = (if x = y then drop_common xs ys else (x # xs, y # ys))"
| "drop_common xs ys = (xs, ys)"

definition filepath_Rel :: "string \<Rightarrow> string \<Rightarrow> string" where
  "filepath_Rel base targ =
     (case drop_common (strings_Split (CHR ''/'') base) (strings_Split (CHR ''/'') targ) of
        (up, down) \<Rightarrow>
          if up = [] \<and> down = [] then ''.''
          else join_with ''/'' (replicate (length up) ''..'' @ down))"

subsection \<open>System calls\<close>

text \<open>
  Each call returns the error it would report (\<open>None\<close>: no error) and the file system
  it leaves. An entry \<open>filepath.Join(dir, name)\<close> is addressed by its two components.
\<close>

definition os_Stat :: "string \<Rightarrow> filesystem \<Rightarrow> errno + bool" where
  "os_Stat path fs =
     (case dirs fs path of
        Missing \<Rightarrow> Inl ENOENT
      | NotDirectory \<Rightarrow> Inr False
      | Present d \<Rightarrow> Inr True)"

text \<open>\<open>os.ReadDir\<close> returns the entries sorted by file name.\<close>

definition os_ReadDir :: "string \<Rightarrow> filesystem \<Rightarrow> errno + (string \<times> node) list" where
  "os_ReadDir path fs =
     (case dirs fs path of
        Missing \<Rightarrow> Inl ENOENT
      | NotDirectory \<Rightarrow> Inl ENOTDIR
      | Present d \<Rightarrow> if readable d then Inr (sort_key fst (entries d)) else Inl EACCES)"

definition os_MkdirAll :: "string \<Rightarrow> nat \<Rightarrow> filesystem \<Rightarrow> errno option \<times> filesystem" where
  "os_MkdirAll path perm fs =
     (case dirs fs path of
        Present d \<Rightarrow> (None, fs)
      | NotDirectory \<Rightarrow> (Some ENOTDIR, fs)
      | Missing \<Rightarrow>
          if creatable fs path
          then (None, fs\<lparr>dirs := (dirs fs)(path :=
                  Present \<lparr>readable = True, writable = True, mode = perm, entries = []\<rparr>)\<rparr>)
          else (Some EACCES, fs))"

definition os_Symlink ::
    "string \<Rightarrow> string \<Rightarrow> string \<Rightarrow> filesystem \<Rightarrow> errno option \<times> filesystem" where
  "os_Symlink oldname dir name fs =
     (case dirs fs dir of
        Missing \<Rightarrow> (Some ENOENT, fs)
      | NotDirectory \<Rightarrow> (Some ENOTDIR, fs)
      | Present d \<Rightarrow>
          if map_of (entries d) name \<noteq> None then (Some EEXIST, fs)
          else if \<not> writable d then (Some EACCES, fs)
          else (None, fs\<lparr>dirs := (dirs fs)(dir :=
                  Present (d\<lparr>entries := entries d @ [(name, Link oldname)]\<rparr>))\<rparr>))"

text \<open>\<open>os.Remove\<close> deletes a file, a symbolic link or an empty directory.\<close>

definition os_Remove :: "string \<Rightarrow> string \<Rightarrow> filesystem \<Rightarrow> errno option \<times> filesystem" where
  "os_Remove dir name fs =
     (case dirs fs dir of
        Missing \<Rightarrow> (Some ENOENT, fs)
      | NotDirectory \<Rightarrow> (Some ENOTDIR, fs)
      | Present d \<Rightarrow>
          (case map_of (entries d) name of
             None \<Rightarrow> (Some ENOENT, fs)
           | Some n \<Rightarrow>
               if \<not> writable d then (Some EACCES, fs)
               else if n = Dir True then (Some ENOTEMPTY, fs)
               else (None, fs\<lparr>dirs := (dirs fs)(dir :=
                       Present (d\<lparr>entries := filter (\<lambda>e. fst e \<noteq> name) (entries d)\<rparr>))\<rparr>)))"

definition os_ReadFile :: "string \<Rightarrow> filesystem \<Rightarrow> errno + content" where
  "os_ReadFile path fs =
     (case files fs path of
        NoFile \<Rightarrow> Inl ENOENT
      | FileOf r c \<Rightarrow> if r then Inr c else Inl EACCES)"

text \<open>
  \<open>os.WriteFile\<close> creates the file or replaces its content; an existing file keeps its
  permissions.
\<close>

definition os_WriteFile :: "string \<Rightarrow> content \<Rightarrow> filesystem \<Rightarrow> errno option \<times> filesystem" where
  "os_WriteFile path c fs =
     (if file_writable fs path
      then (None, fs\<lparr>files := (files fs)(path :=
              (case files fs path of NoFile \<Rightarrow> FileOf True c | FileOf r old \<Rightarrow> FileOf r c))\<rparr>)
      else (Some EACCES, fs))"

section \<open>Providers\<close>

text \<open>
  The provider as the terminal interface holds it. \<open>Configured\<close> and \<open>SkillCount\<close>
  are what \<open>detectProviders\<close> saw when it ran; nothing updates them afterwards.
\<close>

record Provider =
  Name_p :: string
  Path :: string
  Configured :: bool
  SkillCount :: int
  Synced :: bool

definition providerDefs :: "string \<Rightarrow> (string \<times> string) list" where
  "providerDefs home =
     [(''claude'', filepath_Join [home, ''.claude'', ''skills'']),
      (''cursor'', filepath_Join [home, ''.cursor'', ''skills'']),
      (''qoder'', filepath_Join [home, ''.qoder'', ''skills'']),
      (''windsurf'', filepath_Join [home, ''.windsurf'', ''skills'']),
      (''copilot'', filepath_Join [home, ''.copilot'', ''skills'']),
      (''opencode'', filepath_Join [home, ''.opencode'', ''skills''])]"

text \<open>
  The counting loop shared by \<open>detectProviders\<close>, \<open>DetectAll\<close> and \<open>Get\<close>:
  \<^verbatim>\<open>
  for _, e := range entries {
      if e.Name() != ".DS_Store" { p.SkillCount++ }
  }
  \<close>
\<close>

fun count_entries :: "(string \<times> node) list \<Rightarrow> int \<Rightarrow> int" where
  "count_entries [] n = n"
| "count_entries (e # es) n =
     count_entries es (if fst e \<noteq> ''.DS_Store'' then n + 1 else n)"

definition is_directory :: "string \<Rightarrow> filesystem \<Rightarrow> bool" where
  "is_directory path fs = (case os_Stat path fs of Inl err \<Rightarrow> False | Inr isdir \<Rightarrow> isdir)"

definition detect_one :: "filesystem \<Rightarrow> string \<times> string \<Rightarrow> Provider" where
  "detect_one fs pd =
     (let p = \<lparr>Name_p = fst pd, Path = snd pd, Configured = False, SkillCount = 0,
                Synced = False\<rparr>
      in if is_directory (snd pd) fs
         then (let p1 = p\<lparr>Configured := True\<rparr>;
                   p2 = (case os_ReadDir (snd pd) fs of
                           Inr es \<Rightarrow> p1\<lparr>SkillCount := count_entries es (SkillCount p1)\<rparr>
                         | Inl err \<Rightarrow> p1)
               in p2\<lparr>Synced := True\<rparr>)
         else p)"

definition detectProviders :: "filesystem \<Rightarrow> Provider list" where
  "detectProviders fs = map (detect_one fs) (providerDefs (HOME fs))"

text \<open>Package \<open>provider\<close> has its own record and the same detection, without \<open>Synced\<close>.\<close>

record provider_Provider =
  Name_pp :: string
  SkillsPath :: string
  Configured_pp :: bool
  SkillCount_pp :: int

definition KnownProviders :: "(string \<times> (string \<Rightarrow> string)) list" where
  "KnownProviders =
     [(''claude'', \<lambda>h. filepath_Join [h, ''.claude'', ''skills'']),
      (''cursor'', \<lambda>h. filepath_Join [h, ''.cursor'', ''skills'']),
      (''qoder'', \<lambda>h. filepath_Join [h, ''.qoder'', ''skills'']),
      (''windsurf'', \<lambda>h. filepath_Join [h, ''.windsurf'', ''skills'']),
      (''copilot'', \<lambda>h. filepath_Join [h, ''.copilot'', ''skills'']),
      (''opencode'', \<lambda>h. filepath_Join [h, ''.opencode'', ''skills''])]"

definition probe :: "filesystem \<Rightarrow> string \<times> (string \<Rightarrow> string) \<Rightarrow> provider_Provider" where
  "probe fs kp =
     (let p = \<lparr>Name_pp = fst kp, SkillsPath = snd kp (HOME fs), Configured_pp = False,
                SkillCount_pp = 0\<rparr>
      in if is_directory (SkillsPath p) fs
         then (let p1 = p\<lparr>Configured_pp := True\<rparr>
               in case os_ReadDir (SkillsPath p1) fs of
                    Inr es \<Rightarrow> p1\<lparr>SkillCount_pp := count_entries es (SkillCount_pp p1)\<rparr>
                  | Inl err \<Rightarrow> p1)
         else p)"

definition DetectAll :: "filesystem \<Rightarrow> provider_Provider list" where
  "DetectAll fs = map (probe fs) KnownProviders"

fun Get_loop ::
    "string \<Rightarrow> filesystem \<Rightarrow> (string \<times> (string \<Rightarrow> string)) list \<Rightarrow> provider_Provider option" where
  "Get_loop name fs [] = None"
| "Get_loop name fs (kp # kps) =
     (if fst kp = name then Some (probe fs kp) else Get_loop name fs kps)"

definition Get :: "string \<Rightarrow> filesystem \<Rightarrow> provider_Provider option" where
  "Get name fs = Get_loop name fs KnownProviders"

section \<open>The skills of a provider\<close>

record SkillEntry =
  Name :: string
  Group :: string
  Linked :: bool
  Selected :: bool

definition skillsDir :: "filesystem \<Rightarrow> string" where
  "skillsDir fs = filepath_Join [HOME fs, ''.agents'', ''skills'']"

text \<open>
  \<^verbatim>\<open>
  linkedSkills := make(map[string]bool)
  if provider.Configured {
      providerEntries, err := os.ReadDir(provider.Path)
      if err == nil {
          for _, e := range providerEntries {
              if e.Name() != ".DS_Store" { linkedSkills[e.Name()] = true }
          }
      }
  }
  \<close>
  A missing key of a \<open>map[string]bool\<close> reads as \<open>false\<close>.
\<close>

fun mark_linked :: "(string \<times> node) list \<Rightarrow> (string \<Rightarrow> bool) \<Rightarrow> (string \<Rightarrow> bool)" where
  "mark_linked [] m = m"
| "mark_linked (e # es) m =
     mark_linked es (if fst e \<noteq> ''.DS_Store'' then m(fst e := True) else m)"

definition linkedSkills :: "Provider \<Rightarrow> filesystem \<Rightarrow> string \<Rightarrow> bool" where
  "linkedSkills provider fs =
     (if Configured provider
      then (case os_ReadDir (Path provider) fs of
              Inr providerEntries \<Rightarrow> mark_linked providerEntries (\<lambda>n. False)
            | Inl err \<Rightarrow> (\<lambda>n. False))
      else (\<lambda>n. False))"

text \<open>
  \<^verbatim>\<open>
  for _, entry := range entries {
      if entry.IsDir() && entry.Name() != ".DS_Store" {
          group := extractGroup(entry.Name())
          skills = append(skills, SkillEntry{Name: entry.Name(), Group: group,
              Linked: linkedSkills[entry.Name()], Selected: linkedSkills[entry.Name()]})
      }
  }
  \<close>
\<close>

fun collect_skills :: "(string \<times> node) list \<Rightarrow> (string \<Rightarrow> bool) \<Rightarrow> SkillEntry list" where
  "collect_skills [] linked = []"
| "collect_skills (entry # es) linked =
     (if IsDir (snd entry) \<and> fst entry \<noteq> ''.DS_Store''
      then \<lparr>Name = fst entry, Group = extractGroup (fst entry),
             Linked = linked (fst entry), Selected = linked (fst entry)\<rparr>
           # collect_skills es linked
      else collect_skills es linked)"

text \<open>
  \<^verbatim>\<open>
  sort.Slice(skills, func(i, j int) bool {
      if skills[i].Group != skills[j].Group { return skills[i].Group < skills[j].Group }
      return skills[i].Name < skills[j].Name
  })
  \<close>
  The comparison is the lexicographic order of the pair (group, name). \<open>sort.Slice\<close>
  is not stable, and the model sorts by insertion; lemma \<open>sort_skills_unique\<close> below
  shows that on entries built by \<open>collect_skills\<close> every sorting algorithm returns the
  same list.
\<close>

definition skill_key :: "SkillEntry \<Rightarrow> string \<times> string" where
  "skill_key s = (Group s, Name s)"

definition sort_skills :: "SkillEntry list \<Rightarrow> SkillEntry list" where
  "sort_skills skills = sort_key skill_key skills"

definition loadSkillsForProvider :: "Provider \<Rightarrow> filesystem \<Rightarrow> SkillEntry list" where
  "loadSkillsForProvider provider fs =
     (case os_ReadDir (skillsDir fs) fs of
        Inl err \<Rightarrow> []
      | Inr es \<Rightarrow> sort_skills (collect_skills es (linkedSkills provider fs)))"

section \<open>Grouping for display\<close>

record SkillGroup =
  Name_g :: string
  Skills_g :: "nat list"

record displayItem =
  isGroup :: bool
  groupIdx :: nat
  skillIdx :: nat
  groupName :: string

text \<open>
  \<^verbatim>\<open>
  groupMap := make(map[string][]int)
  for i, skill := range m.skills {
      groupMap[skill.Group] = append(groupMap[skill.Group], i)
  }
  \<close>
  The map is kept as an association list with one pair for each key; a missing key reads
  as the nil slice.
\<close>

definition lookup_slice :: "(string \<times> nat list) list \<Rightarrow> string \<Rightarrow> nat list" where
  "lookup_slice m k = (case map_of m k of None \<Rightarrow> [] | Some v \<Rightarrow> v)"

fun group_indices ::
    "SkillEntry list \<Rightarrow> nat \<Rightarrow> (string \<times> nat list) list \<Rightarrow> (string \<times> nat list) list" where
  "group_indices [] i m = m"
| "group_indices (skill # rest) i m =
     group_indices rest (Suc i)
       (AList.update (Group skill) (lookup_slice m (Group skill) @ [i]) m)"

text \<open>
  Ranging over a Go map visits the keys in no fixed order; \<open>sort.Strings\<close> then puts
  them in ascending order. The keys are distinct, so the sorted list does not depend on
  the order of the visit.
\<close>

definition sorted_group_names :: "(string \<times> nat list) list \<Rightarrow> string list" where
  "sorted_group_names m = sort (map fst m)"

fun display_rows :: "(string \<times> nat list) list \<Rightarrow> string list \<Rightarrow> nat \<Rightarrow> displayItem list" where
  "display_rows m [] gi = []"
| "display_rows m (g # gs) gi =
     \<lparr>isGroup = True, groupIdx = gi, skillIdx = 0, groupName = g\<rparr>
     # map (\<lambda>si. \<lparr>isGroup = False, groupIdx = 0, skillIdx = si, groupName = g\<rparr>)
         (lookup_slice m g)
     @ display_rows m gs (Suc gi)"

text \<open>
  \<open>buildDisplayList\<close> sets \<open>m.groups\<close> and \<open>m.displayList\<close> from \<open>m.skills\<close>
  (and tells the paginator how many rows there are, which is left out).
\<close>

definition buildDisplayList :: "SkillEntry list \<Rightarrow> SkillGroup list \<times> displayItem list" where
  "buildDisplayList skills =
     (if length skills = 0 then ([], [])
      else (let groupMap = group_indices skills 0 [];
                groupNames = sorted_group_names groupMap
            in (map (\<lambda>g. \<lparr>Name_g = g, Skills_g = lookup_slice groupMap g\<rparr>) groupNames,
                display_rows groupMap groupNames 0)))"

section \<open>The grouped output\<close>

text \<open>
  The terminal interface always builds its display list from what
  \<open>loadSkillsForProvider\<close> returned. \<open>sorted_skills\<close> is the part of
  \<open>loadSkillsForProvider\<close> that follows the two directory reads, for any list of
  central entries and any table of linked names; \<open>grouped_output\<close> is the display
  built from it.
\<close>

definition sorted_skills :: "(string \<times> node) list \<Rightarrow> (string \<Rightarrow> bool) \<Rightarrow> SkillEntry list" where
  "sorted_skills es linked = sort_skills (collect_skills es linked)"

definition grouped_output ::
    "(string \<times> node) list \<Rightarrow> (string \<Rightarrow> bool) \<Rightarrow> SkillGroup list \<times> displayItem list" where
  "grouped_output es linked = buildDisplayList (sorted_skills es linked)"

text \<open>The entry that \<open>collect_skills\<close> makes for a name, and the entries it keeps.\<close>

definition entry_of :: "(string \<Rightarrow> bool) \<Rightarrow> string \<Rightarrow> SkillEntry" where
  "entry_of linked name =
     \<lparr>Name = name, Group = extractGroup name, Linked = linked name, Selected = linked name\<rparr>"

definition is_skill :: "string \<times> node \<Rightarrow> bool" where
  "is_skill e \<longleftrightarrow> IsDir (snd e) \<and> fst e \<noteq> ''.DS_Store''"


text \<open>
  The rows that one group adds to the display list in \<open>buildDisplayList\<close>: its header,
  then one row for each of its skills.
\<close>

definition group_rows :: "nat \<times> SkillGroup \<Rightarrow> displayItem list" where
  "group_rows ig =
     \<lparr>isGroup = True, groupIdx = fst ig, skillIdx = 0, groupName = Name_g (snd ig)\<rparr>
     # map (\<lambda>si. \<lparr>isGroup = False, groupIdx = 0, skillIdx = si,
                     groupName = Name_g (snd ig)\<rparr>)
         (Skills_g (snd ig))"

section \<open>Applying a selection\<close>

text \<open>
  The source has no plan value: the branch taken for a skill in the loop of
  \<open>applySkillChanges\<close> is its plan. \<open>planned\<close> names that branch.
\<close>

datatype action = CreateLink | RemoveLink | NoOp

definition planned :: "SkillEntry \<Rightarrow> action" where
  "planned skill =
     (if Selected skill \<and> \<not> Linked skill then CreateLink
      else if \<not> Selected skill \<and> Linked skill then RemoveLink
      else NoOp)"

text \<open>
  \<^verbatim>\<open>
  linkPath := filepath.Join(provider.Path, skill.Name)
  targetPath := filepath.Join(skillsDir, skill.Name)
  relPath, _ := filepath.Rel(provider.Path, targetPath)
  if skill.Selected && !skill.Linked {
      os.Symlink(relPath, linkPath)
  } else if !skill.Selected && skill.Linked {
      os.Remove(linkPath)
  }
  \<close>
  The source drops what \<open>os.Symlink\<close> and \<open>os.Remove\<close> return. \<open>apply_item\<close> gives
  it next to the new file system, so that theorems can speak of a failed item.
\<close>

definition apply_item ::
    "Provider \<Rightarrow> string \<Rightarrow> SkillEntry \<Rightarrow> filesystem \<Rightarrow> errno option \<times> filesystem" where
  "apply_item provider sdir skill fs =
     (let targetPath = filepath_Join [sdir, Name skill];
          relPath = filepath_Rel (Path provider) targetPath
      in if Selected skill \<and> \<not> Linked skill
         then os_Symlink relPath (Path provider) (Name skill) fs
         else if \<not> Selected skill \<and> Linked skill
         then os_Remove (Path provider) (Name skill) fs
         else (None, fs))"

fun apply_loop ::
    "Provider \<Rightarrow> string \<Rightarrow> SkillEntry list \<Rightarrow> filesystem \<Rightarrow> errno option list \<times> filesystem" where
  "apply_loop provider sdir [] fs = ([], fs)"
| "apply_loop provider sdir (skill # rest) fs =
     (case apply_item provider sdir skill fs of
        (err, fs1) \<Rightarrow>
          (case apply_loop provider sdir rest fs1 of
             (errs, fs2) \<Rightarrow> (err # errs, fs2)))"

text \<open>
  \<open>applySkillChanges\<close> has no result: the model returns the unit value and the file
  system the call leaves.
  \<^verbatim>\<open>
  if !provider.Configured { os.MkdirAll(provider.Path, 0755) }
  \<close>
  comes before the loop; 0755 is octal, 493.
\<close>

definition applySkillChanges ::
    "Provider \<Rightarrow> SkillEntry list \<Rightarrow> filesystem \<Rightarrow> unit \<times> filesystem" where
  "applySkillChanges provider skills fs =
     (let fs1 = (if \<not> Configured provider
                 then snd (os_MkdirAll (Path provider) 493 fs) else fs)
      in ((), snd (apply_loop provider (skillsDir fs) skills fs1)))"

section \<open>Observing a run\<close>

text \<open>What a directory holds under a name.\<close>

definition lookup_entry :: "filesystem \<Rightarrow> string \<Rightarrow> string \<Rightarrow> node option" where
  "lookup_entry fs dir name =
     (case dirs fs dir of
        Present d \<Rightarrow> map_of (entries d) name
      | Missing \<Rightarrow> None
      | NotDirectory \<Rightarrow> None)"

text \<open>
  The user toggles the \<open>Selected\<close> field of the loaded skills before applying; the
  names in a listing differ, so the toggles amount to a choice for each name.
\<close>

definition select :: "(string \<Rightarrow> bool) \<Rightarrow> SkillEntry list \<Rightarrow> SkillEntry list" where
  "select sel skills = map (\<lambda>s. s\<lparr>Selected := sel (Name s)\<rparr>) skills"

text \<open>
  The errors that a run of \<open>applySkillChanges\<close> meets and drops, one for each skill
  (\<open>None\<close> where nothing failed or nothing was done).
\<close>

definition item_errors :: "Provider \<Rightarrow> SkillEntry list \<Rightarrow> filesystem \<Rightarrow> errno option list" where
  "item_errors provider skills fs =
     fst (apply_loop provider (skillsDir fs) skills
            (if \<not> Configured provider
             then snd (os_MkdirAll (Path provider) 493 fs) else fs))"


text \<open>
  The text that \<open>applySkillChanges\<close> gives a new link for a skill name.
\<close>

definition link_target :: "Provider \<Rightarrow> string \<Rightarrow> string \<Rightarrow> string" where
  "link_target provider sdir name = filepath_Rel (Path provider) (filepath_Join [sdir, name])"

text \<open>
  One pass of the loop body, read off the branches of \<open>apply_item\<close>: what the
  directory of the provider becomes, and what it then holds under the name of the
  skill, given whether the directory may be changed and what it held before.
\<close>

definition item_result :: "string \<Rightarrow> SkillEntry \<Rightarrow> bool \<Rightarrow> node option \<Rightarrow> node option" where
  "item_result target skill w old =
     (if Selected skill \<and> \<not> Linked skill
      then (if old = None \<and> w then Some (Link target) else old)
      else if \<not> Selected skill \<and> Linked skill
      then (if w \<and> old \<noteq> Some (Dir True) then None else old)
      else old)"

definition item_dir :: "string \<Rightarrow> SkillEntry \<Rightarrow> directory \<Rightarrow> directory" where
  "item_dir target skill d =
     (if Selected skill \<and> \<not> Linked skill
      then (if map_of (entries d) (Name skill) = None \<and> writable d
            then d\<lparr>entries := entries d @ [(Name skill, Link target)]\<rparr> else d)
      else if \<not> Selected skill \<and> Linked skill
      then (if map_of (entries d) (Name skill) \<noteq> None \<and> writable d \<and>
               map_of (entries d) (Name skill) \<noteq> Some (Dir True)
            then d\<lparr>entries := filter (\<lambda>e. fst e \<noteq> Name skill) (entries d)\<rparr> else d)
      else d)"

definition dir_writable :: "filesystem \<Rightarrow> string \<Rightarrow> bool" where
  "dir_writable fs dir =
     (case dirs fs dir of
        Present d \<Rightarrow> writable d
      | Missing \<Rightarrow> False
      | NotDirectory \<Rightarrow> False)"

text \<open>
  Two file systems that differ at most in the entries of one directory.
\<close>

definition same_but_entries :: "string \<Rightarrow> filesystem \<Rightarrow> filesystem \<Rightarrow> bool" where
  "same_but_entries dir fs fs' \<longleftrightarrow>
     HOME fs' = HOME fs \<and> creatable fs' = creatable fs \<and> files fs' = files fs \<and>
     file_writable fs' = file_writable fs \<and>
     (\<forall>q. q \<noteq> dir \<longrightarrow> dirs fs' q = dirs fs q) \<and>
     (case dirs fs dir of
        Present d \<Rightarrow> (\<exists>d'. dirs fs' dir = Present d' \<and> readable d' = readable d \<and>
                        writable d' = writable d \<and> mode d' = mode d)
      | Missing \<Rightarrow> dirs fs' dir = Missing
      | NotDirectory \<Rightarrow> dirs fs' dir = NotDirectory)"


section \<open>The store and its lock file\<close>

record Store =
  BaseDir :: string
  LockFile :: string

definition NewStore :: "filesystem \<Rightarrow> Store" where
  "NewStore fs =
     \<lparr>BaseDir = filepath_Join [HOME fs, ''.agents'', ''skills''],
      LockFile = filepath_Join [HOME fs, ''.agents'', ''.skill-lock.json'']\<rparr>"

datatype error = PathError errno | SyntaxError | NilMapPanic

definition LinkToProvider ::
    "Store \<Rightarrow> string \<Rightarrow> string \<Rightarrow> filesystem \<Rightarrow> error option \<times> filesystem" where
  "LinkToProvider s skillName providerPath fs =
     (case os_MkdirAll providerPath 493 fs of
        (Some err, fs1) \<Rightarrow> (Some (PathError err), fs1)
      | (None, fs1) \<Rightarrow>
          (let sourcePath = filepath_Join [BaseDir s, skillName];
               fs2 = snd (os_Remove providerPath skillName fs1);
               relPath = filepath_Rel providerPath sourcePath
           in case os_Symlink relPath providerPath skillName fs2 of
                (err, fs3) \<Rightarrow> (map_option PathError err, fs3)))"

definition UnlinkFromProvider ::
    "Store \<Rightarrow> string \<Rightarrow> string \<Rightarrow> filesystem \<Rightarrow> error option \<times> filesystem" where
  "UnlinkFromProvider s skillName providerPath fs =
     (case os_Remove providerPath skillName fs of
        (err, fs1) \<Rightarrow> (map_option PathError err, fs1))"

fun dir_names :: "(string \<times> node) list \<Rightarrow> string list" where
  "dir_names [] = []"
| "dir_names (e # es) = (if IsDir (snd e) then fst e # dir_names es else dir_names es)"

definition ListInstalled :: "Store \<Rightarrow> filesystem \<Rightarrow> error + string list" where
  "ListInstalled s fs =
     (case os_ReadDir (BaseDir s) fs of
        Inl err \<Rightarrow> Inl (PathError err)
      | Inr es \<Rightarrow> Inr (dir_names es))"

definition json_Unmarshal :: "content \<Rightarrow> LockFile option" where
  "json_Unmarshal data = (case data of Garbage \<Rightarrow> None | Document lock \<Rightarrow> Some lock)"

definition ReadLockFile :: "Store \<Rightarrow> filesystem \<Rightarrow> error + LockFile" where
  "ReadLockFile s fs =
     (case os_ReadFile (LockFile s) fs of
        Inl err \<Rightarrow>
          if err = ENOENT then Inr \<lparr>Version = 3, Skills = Some Map.empty\<rparr>
          else Inl (PathError err)
      | Inr data \<Rightarrow>
          (case json_Unmarshal data of
             None \<Rightarrow> Inl SyntaxError
           | Some lock \<Rightarrow> Inr lock))"

text \<open>
  \<open>WriteLockFile\<close> makes the directory of the lock file, serialises the document and
  writes it. Making the directory and opening the file succeed together when
  \<open>file_writable\<close> holds; serialising a \<open>LockFile\<close> cannot fail.
\<close>

definition WriteLockFile :: "Store \<Rightarrow> LockFile \<Rightarrow> filesystem \<Rightarrow> error option \<times> filesystem" where
  "WriteLockFile s lock fs =
     (case os_WriteFile (LockFile s) (Document lock) fs of
        (err, fs1) \<Rightarrow> (map_option PathError err, fs1))"

text \<open>
  \<open>AddToLock\<close>; \<open>now\<close> is \<open>time.Now().UTC().Format(time.RFC3339)\<close>. The fields the
  composite literal leaves out are empty strings.
\<close>

definition AddToLock ::
    "string \<Rightarrow> Store \<Rightarrow> string \<Rightarrow> string \<Rightarrow> filesystem \<Rightarrow> error option \<times> filesystem" where
  "AddToLock now s skillName source fs =
     (case ReadLockFile s fs of
        Inl err \<Rightarrow> (Some err, fs)
      | Inr lock \<Rightarrow>
          (case Skills lock of
             None \<Rightarrow> (Some NilMapPanic, fs)
           | Some m \<Rightarrow>
               WriteLockFile s
                 (lock\<lparr>Skills := Some (m(skillName \<mapsto>
                    \<lparr>Source = source, SourceType = ''github'',
                     SourceURL = ''https://github.com/'' @ source @ ''.git'',
                     SkillPath = [], SkillFolderHash = [],
                     InstalledAt = now, UpdatedAt = now\<rparr>))\<rparr>) fs))"

section \<open>Example states\<close>

text \<open>
  A home directory with four skills in the central store and one provider, \<open>claude\<close>,
  whose directory holds a link made by this program, a regular file and a directory
  with content. The file and the directory happen to carry the names of skills.
\<close>

definition store_dir :: directory where
  "store_dir = \<lparr>readable = True, writable = True, mode = 493,
     entries = [(''vue-testing'', Dir True), (''react-best-practices'', Dir True),
                (''.DS_Store'', File), (''docs'', Dir True), (''auth-jwt'', Dir True)]\<rparr>"

definition claude_dir :: directory where
  "claude_dir = \<lparr>readable = True, writable = True, mode = 493,
     entries = [(''react-best-practices'', Link ''../../.agents/skills/react-best-practices''),
                (''.DS_Store'', File), (''auth-jwt'', File), (''docs'', Dir True)]\<rparr>"

definition example_fs :: filesystem where
  "example_fs = \<lparr>HOME = ''/home/u'',
     dirs = (\<lambda>p. Missing)(''/home/u/.agents/skills'' := Present store_dir,
                          ''/home/u/.claude/skills'' := Present claude_dir),
     creatable = (\<lambda>p. True),
     files = (\<lambda>p. NoFile),
     file_writable = (\<lambda>p. True)\<rparr>"

definition claude :: Provider where
  "claude = \<lparr>Name_p = ''claude'', Path = ''/home/u/.claude/skills'', Configured = True,
     SkillCount = 3, Synced = True\<rparr>"

text \<open>The same provider as it is detected while its directory does not exist.\<close>

definition claude_unconfigured :: Provider where
  "claude_unconfigured = \<lparr>Name_p = ''claude'', Path = ''/home/u/.claude/skills'',
     Configured = False, SkillCount = 0, Synced = False\<rparr>"

definition example_store :: Store where
  "example_store = \<lparr>BaseDir = ''/home/u/.agents/skills'',
     LockFile = ''/home/u/.agents/.skill-lock.json''\<rparr>"

text \<open>What a reader of the lock file finds under a skill name, and the version it finds.\<close>

definition lock_entry :: "Store \<Rightarrow> filesystem \<Rightarrow> string \<Rightarrow> LockEntry option" where
  "lock_entry s fs name =
     (case ReadLockFile s fs of
        Inl err \<Rightarrow> None
      | Inr lock \<Rightarrow> (case Skills lock of None \<Rightarrow> None | Some m \<Rightarrow> m name))"

definition lock_version :: "Store \<Rightarrow> filesystem \<Rightarrow> int option" where
  "lock_version s fs =
     (case ReadLockFile s fs of Inl err \<Rightarrow> None | Inr lock \<Rightarrow> Some (Version lock))"

text \<open>The example state with a lock file that records one skill, installed in 2024.\<close>

definition old_entry :: LockEntry where
  "old_entry = \<lparr>Source = ''acme/skills'', SourceType = ''github'',
     SourceURL = ''https://github.com/acme/skills.git'',
     SkillPath = ''skills/vue-testing/SKILL.md'', SkillFolderHash = ''9f2c'',
     InstalledAt = ''2024-01-01T00:00:00Z'', UpdatedAt = ''2024-03-05T10:00:00Z''\<rparr>"

definition locked_fs :: filesystem where
  "locked_fs = example_fs\<lparr>files := (files example_fs)(''/home/u/.agents/.skill-lock.json'' :=
     FileOf True (Document \<lparr>Version = 3, Skills = Some [''vue-testing'' \<mapsto> old_entry]\<rparr>))\<rparr>"


text \<open>
  The example state with both directories closed to listing, and a home directory in
  which nothing has been installed yet.
\<close>

definition unreadable_fs :: filesystem where
  "unreadable_fs = example_fs\<lparr>dirs := (dirs example_fs)
     (''/home/u/.agents/skills'' := Present (store_dir\<lparr>readable := False\<rparr>),
      ''/home/u/.claude/skills'' := Present (claude_dir\<lparr>readable := False\<rparr>))\<rparr>"

definition fresh_fs :: filesystem where
  "fresh_fs = \<lparr>HOME = ''/home/u'', dirs = (\<lambda>p. Missing), creatable = (\<lambda>p. True),
     files = (\<lambda>p. NoFile), file_writable = (\<lambda>p. True)\<rparr>"


text \<open>
  The example state with the directory of the provider closed to changes; with that
  directory absent; and with it absent where its parent does not allow creating it.
\<close>

definition readonly_fs :: filesystem where
  "readonly_fs = example_fs\<lparr>dirs := (dirs example_fs)
     (''/home/u/.claude/skills'' := Present (claude_dir\<lparr>writable := False\<rparr>))\<rparr>"

definition unconfigured_fs :: filesystem where
  "unconfigured_fs = example_fs\<lparr>dirs := (dirs example_fs)(''/home/u/.claude/skills'' := Missing)\<rparr>"

definition sealed_fs :: filesystem where
  "sealed_fs = unconfigured_fs\<lparr>creatable := (\<lambda>p. False)\<rparr>"

text \<open>A selection, given as the list of the names the user wants linked.\<close>

definition wanted :: "string list \<Rightarrow> string \<Rightarrow> bool" where
  "wanted names n = (n \<in> set names)"


lemmas example_defs =
  example_fs_def store_dir_def claude_dir_def claude_def claude_unconfigured_def
  example_store_def readonly_fs_def unconfigured_fs_def sealed_fs_def wanted_def


section \<open>Facts about the model\<close>

subsection \<open>Facts about splitting\<close>

lemma strings_Split_not_Nil: "strings_Split sep s \<noteq> []"
  by (induction s) (simp_all add: Let_def)

lemma length_strings_Split:
  "length (strings_Split sep s) = Suc (length (filter (\<lambda>c. c = sep) s))"
proof (induction s)
  case Nil
  show ?case by simp
next
  case (Cons c cs)
  have "strings_Split sep cs \<noteq> []" by (rule strings_Split_not_Nil)
  then have "length (tl (strings_Split sep cs)) = length (strings_Split sep cs) - 1"
    by simp
  with Cons show ?case by (simp add: Let_def)
qed

lemma strings_Split_two_parts:
  "2 \<le> length (strings_Split sep s) \<longleftrightarrow> sep \<in> set s"
proof -
  have "filter (\<lambda>c. c = sep) s \<noteq> [] \<longleftrightarrow> sep \<in> set s"
    by (auto simp: filter_empty_conv)
  then show ?thesis
    by (cases "filter (\<lambda>c. c = sep) s") (simp_all add: length_strings_Split)
qed

lemma hd_strings_Split:
  "hd (strings_Split sep s) = takeWhile (\<lambda>c. c \<noteq> sep) s"
  by (induction s) (simp_all add: Let_def)

lemma extractGroup_no_sep:
  "CHR ''-'' \<notin> set name \<Longrightarrow> extractGroup name = ''_other''"
  using strings_Split_two_parts [of "CHR ''-''" name]
  by (simp add: extractGroup_def Let_def)

lemma extractGroup_sep:
  "CHR ''-'' \<in> set name \<Longrightarrow>
     extractGroup name = takeWhile (\<lambda>c. c \<noteq> CHR ''-'') name"
  using strings_Split_two_parts [of "CHR ''-''" name]
    hd_strings_Split [of "CHR ''-''" name] strings_Split_not_Nil [of "CHR ''-''" name]
  by (simp add: extractGroup_def Let_def hd_conv_nth)

section \<open>The grouping sentinel\<close>

text \<open>
  Claim C4, as the code has it. For every skill name without the separator \<open>-\<close>,
  \<open>extractGroup\<close> returns the fixed sentinel \<open>_other\<close>. The sentinel does not sort
  after all the groups taken from names that have a separator: its first byte is \<open>_\<close>
  (0x5F), so it sorts before the group of every name that starts with a greater byte
  (every lower-case letter) and after the group of every name that starts with a
  smaller one (digits, upper-case letters, the separator itself).
\<close>

theorem extractGroup_sentinel_order:
  "CHR ''-'' \<notin> set name \<Longrightarrow> CHR ''-'' \<in> set other \<Longrightarrow>
     extractGroup name = ''_other'' \<and>
     (CHR ''_'' < hd other \<longrightarrow> extractGroup name < extractGroup other) \<and>
     (hd other < CHR ''_'' \<longrightarrow> extractGroup other < extractGroup name)"
proof -
  assume no_sep: "CHR ''-'' \<notin> set name" and sep: "CHR ''-'' \<in> set other"
  from sep obtain c cs where other: "other = c # cs"
    by (cases other) auto
  have sentinel: "extractGroup name = ''_other''"
    using no_sep by (rule extractGroup_no_sep)
  have prefix: "extractGroup (c # cs) = takeWhile (\<lambda>x. x \<noteq> CHR ''-'') (c # cs)"
    using sep extractGroup_sep [of other] unfolding other by blast
  have above: "''_other'' < extractGroup (c # cs)" if "CHR ''_'' < c"
  proof -
    from that have "c \<noteq> CHR ''-''" by auto
    with that show ?thesis by (simp add: prefix)
  qed
  have below: "extractGroup (c # cs) < ''_other''" if "c < CHR ''_''"
    using that by (simp add: prefix)
  from above below show ?thesis
    by (simp add: other sentinel)
qed

theorem extractGroup_sentinel_order_witness:
  "CHR ''-'' \<notin> set ''docs'' \<and> CHR ''-'' \<in> set ''Vue-testing'' \<and>
   extractGroup ''docs'' = ''_other'' \<and>
   extractGroup ''Vue-testing'' < extractGroup ''docs''"
  using extractGroup_sentinel_order [of "''docs''" "''Vue-testing''"]
  by (simp add: extractGroup_def)

text \<open>
  The claim as the specification words it fails: \<open>docs\<close> has no separator,
  \<open>react-best-practices\<close> has one, and the sentinel group of the first sorts before the
  group \<open>react\<close> of the second. In the grouped output of the example state the group
  \<open>_other\<close> comes first.
\<close>

theorem sentinel_sorts_first_counterexample:
  "CHR ''-'' \<notin> set ''docs'' \<and> CHR ''-'' \<in> set ''react-best-practices'' \<and>
   extractGroup ''docs'' < extractGroup ''react-best-practices'' \<and>
   map Name_g (fst (buildDisplayList (loadSkillsForProvider claude example_fs))) =
     [''_other'', ''auth'', ''react'', ''vue'']"
  by (simp add: buildDisplayList_def sorted_group_names_def lookup_slice_def
      loadSkillsForProvider_def skillsDir_def linkedSkills_def os_ReadDir_def example_defs
      filepath_Join_def Let_def sort_skills_def skill_key_def extractGroup_def)

section \<open>Reading the lock file\<close>

text \<open>
  Claim C7. When the lock file does not exist, \<open>ReadLockFile\<close> returns a document with
  the version set (to 3) and an empty skills map, and no error. It returns an error
  exactly when the file exists and cannot be read, or is read and does not parse.
\<close>

theorem ReadLockFile_no_file:
  "(files fs (LockFile s) = NoFile \<longrightarrow>
      ReadLockFile s fs = Inr \<lparr>Version = 3, Skills = Some Map.empty\<rparr>) \<and>
   (isl (ReadLockFile s fs) \<longleftrightarrow>
      (\<exists>c. files fs (LockFile s) = FileOf False c) \<or>
      files fs (LockFile s) = FileOf True Garbage)"
  by (auto simp: ReadLockFile_def os_ReadFile_def json_Unmarshal_def
      split: filestate.splits content.splits if_splits)

theorem ReadLockFile_no_file_witness:
  "files example_fs (LockFile (NewStore example_fs)) = NoFile \<and>
   ReadLockFile (NewStore example_fs) example_fs =
     Inr \<lparr>Version = 3, Skills = Some Map.empty\<rparr> \<and>
   \<not> isl (ReadLockFile (NewStore example_fs) example_fs)"
  using ReadLockFile_no_file [of example_fs "NewStore example_fs"]
  by (simp add: example_fs_def)


section \<open>Recording a skill in the lock file\<close>

lemma WriteLockFile_after_read:
  assumes "ReadLockFile s fs = Inr lock0" "file_writable fs (LockFile s)"
  shows "WriteLockFile s lock fs =
    (None, fs\<lparr>files := (files fs)(LockFile s := FileOf True (Document lock))\<rparr>)"
  using assms
  by (auto simp: ReadLockFile_def WriteLockFile_def os_WriteFile_def os_ReadFile_def
      split: filestate.splits if_splits)

lemma AddToLock_succeeds_iff:
  "fst (AddToLock now s skillName source fs) = None \<longleftrightarrow>
     (\<exists>lock m. ReadLockFile s fs = Inr lock \<and> Skills lock = Some m) \<and>
     file_writable fs (LockFile s)"
  by (auto simp: AddToLock_def WriteLockFile_def os_WriteFile_def
      split: sum.splits option.splits)

text \<open>
  Claim C6, as the code has it. Whenever the lock file can be loaded (its skills map not
  nil) and written, \<open>AddToLock\<close> succeeds and upserts exactly one entry, keyed by the
  skill name: the other entries and the version stay as they were. The entry has
  \<open>updatedAt\<close> and \<open>installedAt\<close> both set to the current time, whether or not the name
  had an entry before; an \<open>installedAt\<close> already recorded is overwritten, and so are
  the fields that \<open>AddToLock\<close> does not set.
\<close>

theorem AddToLock_upsert:
  assumes "ReadLockFile s fs = Inr lock" and "Skills lock = Some m"
    and "file_writable fs (LockFile s)"
  shows "fst (AddToLock now s skillName source fs) = None \<and>
     lock_entry s (snd (AddToLock now s skillName source fs)) skillName =
       Some \<lparr>Source = source, SourceType = ''github'',
              SourceURL = ''https://github.com/'' @ source @ ''.git'',
              SkillPath = [], SkillFolderHash = [],
              InstalledAt = now, UpdatedAt = now\<rparr> \<and>
     (\<forall>other. other \<noteq> skillName \<longrightarrow>
        lock_entry s (snd (AddToLock now s skillName source fs)) other =
        lock_entry s fs other) \<and>
     lock_version s (snd (AddToLock now s skillName source fs)) = lock_version s fs"
proof -
  note w = WriteLockFile_after_read [OF assms(1) assms(3)]
  show ?thesis
    using assms(1,2)
    by (simp add: AddToLock_def w lock_entry_def lock_version_def)
      (simp add: ReadLockFile_def os_ReadFile_def json_Unmarshal_def)
qed

theorem AddToLock_upsert_witness:
  "ReadLockFile example_store locked_fs =
     Inr \<lparr>Version = 3, Skills = Some [''vue-testing'' \<mapsto> old_entry]\<rparr> \<and>
   file_writable locked_fs (LockFile example_store) \<and>
   fst (AddToLock ''2025-06-01T12:00:00Z'' example_store ''auth-jwt'' ''acme/skills''
          locked_fs) = None \<and>
   lock_entry example_store
     (snd (AddToLock ''2025-06-01T12:00:00Z'' example_store ''auth-jwt'' ''acme/skills''
             locked_fs)) ''auth-jwt'' =
     Some \<lparr>Source = ''acme/skills'', SourceType = ''github'',
            SourceURL = ''https://github.com/acme/skills.git'',
            SkillPath = [], SkillFolderHash = [],
            InstalledAt = ''2025-06-01T12:00:00Z'', UpdatedAt = ''2025-06-01T12:00:00Z''\<rparr> \<and>
   lock_entry example_store
     (snd (AddToLock ''2025-06-01T12:00:00Z'' example_store ''auth-jwt'' ''acme/skills''
             locked_fs)) ''vue-testing'' = Some old_entry"
  using AddToLock_upsert [of example_store locked_fs
      "\<lparr>Version = 3, Skills = Some [''vue-testing'' \<mapsto> old_entry]\<rparr>"
      "[''vue-testing'' \<mapsto> old_entry]" "''2025-06-01T12:00:00Z''" "''auth-jwt''"
      "''acme/skills''"]
  by (simp add: ReadLockFile_def os_ReadFile_def json_Unmarshal_def locked_fs_def
      example_defs lock_entry_def)

text \<open>
  The claim as the specification words it fails: \<open>vue-testing\<close> is recorded with
  \<open>installedAt\<close> in 2024; recording it again in 2025 succeeds and leaves \<open>installedAt\<close>
  in 2025.
\<close>

theorem AddToLock_overwrites_installedAt_counterexample:
  "map_option InstalledAt (lock_entry example_store locked_fs ''vue-testing'') =
     Some ''2024-01-01T00:00:00Z'' \<and>
   fst (AddToLock ''2025-06-01T12:00:00Z'' example_store ''vue-testing'' ''acme/skills''
          locked_fs) = None \<and>
   map_option InstalledAt
     (lock_entry example_store
        (snd (AddToLock ''2025-06-01T12:00:00Z'' example_store ''vue-testing''
                ''acme/skills'' locked_fs)) ''vue-testing'') =
     Some ''2025-06-01T12:00:00Z''"
  by (simp add: AddToLock_def WriteLockFile_def os_WriteFile_def ReadLockFile_def
      os_ReadFile_def json_Unmarshal_def locked_fs_def example_defs lock_entry_def
      old_entry_def)


section \<open>Listing the central store\<close>

text \<open>
  Claim C3, as the code has it. \<open>Store.ListInstalled\<close> fails exactly when the central
  directory cannot be read, whatever the reason: a missing directory gives the
  not-exist error of \<open>os.ReadDir\<close>, not an empty set. The listing of the terminal
  interface, \<open>loadSkillsForProvider\<close>, goes the other way: whenever the central
  directory cannot be read, missing or not, it returns the empty list and no error.
\<close>

theorem ListInstalled_fails_iff:
  "(isl (ListInstalled s fs) \<longleftrightarrow>
      (\<forall>d. dirs fs (BaseDir s) = Present d \<longrightarrow> \<not> readable d)) \<and>
   (dirs fs (BaseDir s) = Missing \<longrightarrow> ListInstalled s fs = Inl (PathError ENOENT)) \<and>
   ((\<forall>d. dirs fs (skillsDir fs) = Present d \<longrightarrow> \<not> readable d) \<longrightarrow>
      loadSkillsForProvider p fs = [])"
  by (auto simp: ListInstalled_def loadSkillsForProvider_def os_ReadDir_def
      split: dirstate.splits)

theorem ListInstalled_fails_iff_witness:
  "dirs fresh_fs (BaseDir (NewStore fresh_fs)) = Missing \<and>
   isl (ListInstalled (NewStore fresh_fs) fresh_fs) \<and>
   ListInstalled (NewStore fresh_fs) fresh_fs = Inl (PathError ENOENT) \<and>
   loadSkillsForProvider claude fresh_fs = []"
  using ListInstalled_fails_iff [of "NewStore fresh_fs" fresh_fs claude]
  by (simp add: fresh_fs_def NewStore_def skillsDir_def)

text \<open>
  The claim as the specification words it fails on both listings. Where the central
  directory does not exist, \<open>ListInstalled\<close> returns an error. Where it exists and may
  not be listed, \<open>loadSkillsForProvider\<close> returns the empty list instead of failing.
\<close>

theorem listing_errors_counterexample:
  "dirs fresh_fs (BaseDir (NewStore fresh_fs)) = Missing \<and>
   ListInstalled (NewStore fresh_fs) fresh_fs = Inl (PathError ENOENT) \<and>
   dirs unreadable_fs (skillsDir unreadable_fs) = Present (store_dir\<lparr>readable := False\<rparr>) \<and>
   os_ReadDir (skillsDir unreadable_fs) unreadable_fs = Inl EACCES \<and>
   loadSkillsForProvider claude unreadable_fs = []"
  by (simp add: ListInstalled_def loadSkillsForProvider_def os_ReadDir_def fresh_fs_def
      unreadable_fs_def NewStore_def skillsDir_def example_defs filepath_Join_def)

section \<open>Counting the entries of a provider\<close>

lemma count_entries_eq:
  "count_entries es n = n + int (length (filter (\<lambda>e. fst e \<noteq> ''.DS_Store'') es))"
  by (induction es arbitrary: n) auto

lemma length_filter_sort_key:
  "length (filter P (sort_key f xs)) = length (filter P xs)"
proof -
  have "mset (filter P (sort_key f xs)) = mset (filter P xs)" by simp
  then show ?thesis by (metis size_mset)
qed

lemma probe_count:
  assumes "Configured_pp (probe fs kp)"
  shows "\<exists>d. dirs fs (SkillsPath (probe fs kp)) = Present d \<and>
     SkillCount_pp (probe fs kp) =
       (if readable d
        then int (length (filter (\<lambda>e. fst e \<noteq> ''.DS_Store'') (entries d))) else 0)"
  using assms
  by (auto simp: probe_def Let_def is_directory_def os_Stat_def os_ReadDir_def
      count_entries_eq length_filter_sort_key split: dirstate.splits if_splits)

lemma Get_loop_probe:
  "Get_loop name fs kps = Some p \<Longrightarrow> \<exists>kp \<in> set kps. p = probe fs kp"
  by (induction kps) (auto split: if_splits)

text \<open>
  Claim C10, as the code has it. For every configured provider that \<open>DetectAll\<close> or
  \<open>Get\<close> reports, the directory exists, and when it can be listed \<open>SkillCount\<close> is the
  number of its entries whose name is not \<open>.DS_Store\<close>: only the name is looked at, so
  regular files, subdirectories and symbolic links pointing anywhere count alike. When
  the directory cannot be listed the provider is still configured and the count is 0.
\<close>

theorem SkillCount_counts_entries:
  assumes "p \<in> set (DetectAll fs) \<or> Get name fs = Some p" and "Configured_pp p"
  shows "\<exists>d. dirs fs (SkillsPath p) = Present d \<and>
     SkillCount_pp p =
       (if readable d
        then int (length (filter (\<lambda>e. fst e \<noteq> ''.DS_Store'') (entries d))) else 0)"
proof -
  from assms(1) obtain kp where "p = probe fs kp"
    by (auto simp: DetectAll_def Get_def dest: Get_loop_probe)
  with assms(2) show ?thesis using probe_count by simp
qed

theorem SkillCount_counts_entries_witness:
  "Get ''claude'' example_fs =
     Some \<lparr>Name_pp = ''claude'', SkillsPath = ''/home/u/.claude/skills'',
            Configured_pp = True, SkillCount_pp = 3\<rparr> \<and>
   dirs example_fs ''/home/u/.claude/skills'' = Present claude_dir \<and>
   readable claude_dir \<and>
   map snd (filter (\<lambda>e. fst e \<noteq> ''.DS_Store'') (entries claude_dir)) =
     [Link ''../../.agents/skills/react-best-practices'', File, Dir True]"
  using SkillCount_counts_entries [of
      "\<lparr>Name_pp = ''claude'', SkillsPath = ''/home/u/.claude/skills'',
        Configured_pp = True, SkillCount_pp = 3\<rparr>" example_fs "''claude''"]
  by (simp add: Get_def KnownProviders_def probe_def is_directory_def os_Stat_def
      os_ReadDir_def example_defs filepath_Join_def Let_def)

text \<open>
  The claim as the specification words it fails where the directory of a configured
  provider may not be listed: it holds three entries besides \<open>.DS_Store\<close> and the
  count is 0.
\<close>

theorem SkillCount_unreadable_counterexample:
  "Get ''claude'' unreadable_fs =
     Some \<lparr>Name_pp = ''claude'', SkillsPath = ''/home/u/.claude/skills'',
            Configured_pp = True, SkillCount_pp = 0\<rparr> \<and>
   dirs unreadable_fs ''/home/u/.claude/skills'' = Present (claude_dir\<lparr>readable := False\<rparr>) \<and>
   length (filter (\<lambda>e. fst e \<noteq> ''.DS_Store'')
             (entries (claude_dir\<lparr>readable := False\<rparr>))) = 3"
  by (simp add: Get_def KnownProviders_def probe_def is_directory_def os_Stat_def
      os_ReadDir_def unreadable_fs_def example_defs filepath_Join_def Let_def)


section \<open>Sorting and grouping\<close>

lemma collect_skills_eq:
  "collect_skills es linked = map (entry_of linked) (map fst (filter is_skill es))"
  by (induction es) (simp_all add: entry_of_def is_skill_def)

lemma skill_key_entry_of: "skill_key (entry_of linked n) = (extractGroup n, n)"
  by (simp add: skill_key_def entry_of_def)

lemma inj_on_skill_key: "inj_on skill_key (set (collect_skills es linked))"
  by (auto simp: inj_on_def collect_skills_eq skill_key_entry_of)

lemma mset_collect_skills:
  "mset es = mset es' \<Longrightarrow> mset (collect_skills es linked) = mset (collect_skills es' linked)"
proof -
  assume "mset es = mset es'"
  then have "mset (filter is_skill es) = mset (filter is_skill es')"
    by (metis mset_filter)
  then have "mset (map (\<lambda>e. entry_of linked (fst e)) (filter is_skill es)) =
             mset (map (\<lambda>e. entry_of linked (fst e)) (filter is_skill es'))"
    by (metis mset_map)
  then show ?thesis by (simp add: collect_skills_eq comp_def)
qed

lemma sort_skills_perm:
  "mset es = mset es' \<Longrightarrow>
   sort_skills (collect_skills es linked) = sort_skills (collect_skills es' linked)"
  unfolding sort_skills_def
  by (rule sort_key_eq_sort_key [OF mset_collect_skills inj_on_skill_key])

lemma sort_skills_unique:
  "mset ys = mset (collect_skills es linked) \<Longrightarrow> sorted (map skill_key ys) \<Longrightarrow>
   sort_skills (collect_skills es linked) = ys"
  unfolding sort_skills_def
  by (rule sort_key_inj_key_eq [OF _ inj_on_skill_key]) simp_all

lemma sorted_sort_skills: "sorted (map skill_key (sort_skills skills))"
  by (simp add: sort_skills_def)

lemma group_indices_keys:
  "fst ` set (group_indices skills i m) = fst ` set m \<union> Group ` set skills"
  by (induction skills arbitrary: i m) (auto simp: dom_update)

lemma group_indices_distinct:
  "distinct (map fst m) \<Longrightarrow> distinct (map fst (group_indices skills i m))"
  by (induction skills arbitrary: i m) (auto simp: distinct_update)

lemma lookup_slice_update:
  "lookup_slice (AList.update k v m) g = (if g = k then v else lookup_slice m g)"
  by (simp add: lookup_slice_def update_conv')

lemma group_indices_lookup:
  "lookup_slice (group_indices skills i m) g =
     lookup_slice m g @ map (\<lambda>j. i + j) (filter (\<lambda>j. Group (skills ! j) = g) [0..<length skills])"
proof (induction skills arbitrary: i m)
  case Nil
  show ?case by simp
next
  case (Cons s skills)
  have split: "[0..<length (s # skills)] = 0 # map Suc [0..<length skills]"
    by (simp add: upt_conv_Cons map_Suc_upt del: upt_Suc)
  show ?case
    unfolding split
    by (simp add: Cons.IH lookup_slice_update filter_map comp_def)
qed


lemma group_members:
  "lookup_slice (group_indices skills 0 []) g =
     filter (\<lambda>j. Group (skills ! j) = g) [0..<length skills]"
  unfolding group_indices_lookup by (auto simp: lookup_slice_def intro: map_idI)

lemma nth_filter_indices:
  "map (\<lambda>j. f (skills ! j)) (filter (\<lambda>j. P (skills ! j)) [0..<length skills]) =
     map f (filter P skills)"
proof -
  have "map f (filter P (map (\<lambda>j. skills ! j) [0..<length skills])) =
        map f (map (\<lambda>j. skills ! j) (filter (\<lambda>j. P (skills ! j)) [0..<length skills]))"
    by (simp add: filter_map comp_def)
  then show ?thesis by (simp add: map_nth comp_def)
qed

lemma sorted_names_in_group:
  "sorted (map skill_key skills) \<Longrightarrow> sorted (map Name (filter (\<lambda>s. Group s = g) skills))"
proof (induction skills)
  case Nil
  show ?case by simp
next
  case (Cons s skills)
  then show ?case
    by (auto simp: skill_key_def less_eq_prod_def)
qed

lemma sorted_group_names_props:
  "sorted (sorted_group_names m) \<and> set (sorted_group_names m) = fst ` set m \<and>
   (distinct (map fst m) \<longrightarrow> distinct (sorted_group_names m))"
  by (simp add: sorted_group_names_def)

lemma fst_buildDisplayList:
  "fst (buildDisplayList skills) =
     map (\<lambda>g. \<lparr>Name_g = g, Skills_g = filter (\<lambda>j. Group (skills ! j) = g) [0..<length skills]\<rparr>)
       (sort (remdups (map Group skills)))"
proof (cases "skills = []")
  case True
  then show ?thesis by (simp add: buildDisplayList_def)
next
  case False
  have d: "distinct (map fst (group_indices skills 0 []))"
    by (rule group_indices_distinct) simp
  have "set (map fst (group_indices skills 0 [])) = set (remdups (map Group skills))"
    by (simp add: group_indices_keys)
  then have "mset (map fst (group_indices skills 0 [])) = mset (remdups (map Group skills))"
    using set_eq_iff_mset_eq_distinct [OF d distinct_remdups] by blast
  then have "sort (map fst (group_indices skills 0 [])) = sort (remdups (map Group skills))"
    by (metis properties_for_sort sorted_sort mset_sort)
  then have names: "sorted_group_names (group_indices skills 0 []) = sort (remdups (map Group skills))"
    by (simp add: sorted_group_names_def)
  have "fst (buildDisplayList skills) =
      map (\<lambda>g. \<lparr>Name_g = g, Skills_g = lookup_slice (group_indices skills 0 []) g\<rparr>)
        (sorted_group_names (group_indices skills 0 []))"
    using False by (simp add: buildDisplayList_def Let_def)
  then show ?thesis
    unfolding names group_members .
qed

lemma display_rows_names:
  "map groupName (display_rows m gs gi) =
     concat (map (\<lambda>g. g # replicate (length (lookup_slice m g)) g) gs)"
  by (induction gs arbitrary: gi) (simp_all add: comp_def map_replicate_const)

lemma sorted_concat_replicate:
  "sorted gs \<Longrightarrow> sorted (concat (map (\<lambda>g. g # replicate (f g) g) gs)) "
  by (induction gs) (auto simp: sorted_append)

lemma sorted_display:
  "sorted (map groupName (snd (buildDisplayList skills)))"
  by (simp add: buildDisplayList_def Let_def display_rows_names sorted_concat_replicate sorted_group_names_def)

lemma loadSkillsForProvider_sorted_skills:
  "os_ReadDir (skillsDir fs) fs = Inr es \<Longrightarrow>
     loadSkillsForProvider provider fs = sorted_skills es (linkedSkills provider fs)"
  by (simp add: loadSkillsForProvider_def sorted_skills_def)

lemma display_rows_groups:
  "display_rows m gs gi =
     concat (map group_rows
       (enumerate gi (map (\<lambda>g. \<lparr>Name_g = g, Skills_g = lookup_slice m g\<rparr>) gs)))"
  by (induction gs arbitrary: gi) (simp_all add: group_rows_def)

lemma snd_buildDisplayList:
  "snd (buildDisplayList skills) =
     concat (map group_rows (enumerate 0 (fst (buildDisplayList skills))))"
  by (simp add: buildDisplayList_def Let_def display_rows_groups)

lemma mset_names_sorted_skills:
  "mset (map Name (sorted_skills es linked)) = mset (map fst (filter is_skill es))"
proof -
  have "mset (map Name (sorted_skills es linked)) = mset (map Name (collect_skills es linked))"
    by (simp add: sorted_skills_def sort_skills_def)
  also have "map Name (collect_skills es linked) = map fst (filter is_skill es)"
    by (simp add: collect_skills_eq comp_def entry_of_def)
  finally show ?thesis .
qed

lemma sorted_skills_entries:
  "s \<in> set (sorted_skills es linked) \<Longrightarrow> s = entry_of linked (Name s)"
  by (auto simp: sorted_skills_def sort_skills_def collect_skills_eq entry_of_def)

text \<open>
  Claim C5. For every list of central entries, in any order: the sorted skills are the
  skill entries of the input, each made from its name, in ascending order of (group,
  name). The groups of the grouped output are the groups of these skills, each once, in
  ascending order of their names. The members of a group are the indices of all the
  skills of that group, which are its skills in ascending order of their names. The
  display list is, group after group in that order, the header of the group followed
  by one row for each member. And the whole output is the same for every permutation of
  the entries.
\<close>

theorem grouped_output_sorted:
  "mset (map Name (sorted_skills es linked)) = mset (map fst (filter is_skill es)) \<and>
   (\<forall>s \<in> set (sorted_skills es linked). s = entry_of linked (Name s)) \<and>
   sorted (map skill_key (sorted_skills es linked)) \<and>
   map Name_g (fst (grouped_output es linked)) =
     sort (remdups (map Group (sorted_skills es linked))) \<and>
   sorted (map Name_g (fst (grouped_output es linked))) \<and>
   distinct (map Name_g (fst (grouped_output es linked))) \<and>
   (\<forall>g \<in> set (fst (grouped_output es linked)).
      Skills_g g =
        filter (\<lambda>i. Group (sorted_skills es linked ! i) = Name_g g)
          [0..<length (sorted_skills es linked)] \<and>
      sorted (map (\<lambda>i. Name (sorted_skills es linked ! i)) (Skills_g g)) \<and>
      map (\<lambda>i. sorted_skills es linked ! i) (Skills_g g) =
        filter (\<lambda>s. Group s = Name_g g) (sorted_skills es linked)) \<and>
   snd (grouped_output es linked) =
     concat (map group_rows (enumerate 0 (fst (grouped_output es linked)))) \<and>
   sorted (map groupName (snd (grouped_output es linked))) \<and>
   (mset es' = mset es \<longrightarrow> grouped_output es' linked = grouped_output es linked)"
proof -
  define skills where "skills = sorted_skills es linked"
  have s: "sorted (map skill_key skills)"
    unfolding skills_def sorted_skills_def by (rule sorted_sort_skills)
  have a: "mset (map Name skills) = mset (map fst (filter is_skill es))"
    unfolding skills_def by (rule mset_names_sorted_skills)
  have b: "\<forall>s \<in> set skills. s = entry_of linked (Name s)"
    unfolding skills_def using sorted_skills_entries by blast
  have 0: "map Name_g (fst (buildDisplayList skills)) = sort (remdups (map Group skills))"
    by (simp add: fst_buildDisplayList comp_def)
  have 1: "sorted (map Name_g (fst (buildDisplayList skills)))"
    unfolding 0 by simp
  have 2: "distinct (map Name_g (fst (buildDisplayList skills)))"
    unfolding 0 by simp
  have 3: "Skills_g g = filter (\<lambda>i. Group (skills ! i) = Name_g g) [0..<length skills] \<and>
        sorted (map (\<lambda>i. Name (skills ! i)) (Skills_g g)) \<and>
        map (\<lambda>i. skills ! i) (Skills_g g) = filter (\<lambda>s. Group s = Name_g g) skills"
    if "g \<in> set (fst (buildDisplayList skills))" for g
  proof -
    from that obtain n where g: "g = \<lparr>Name_g = n, Skills_g = filter (\<lambda>j. Group (skills ! j) = n) [0..<length skills]\<rparr>"
      by (auto simp: fst_buildDisplayList)
    show ?thesis
      using sorted_names_in_group [OF s, of n]
        nth_filter_indices [of Name skills "\<lambda>s. Group s = n"]
        nth_filter_indices [of "\<lambda>s. s" skills "\<lambda>s. Group s = n"]
      by (simp add: g)
  qed
  have 4: "snd (buildDisplayList skills) =
      concat (map group_rows (enumerate 0 (fst (buildDisplayList skills))))"
    by (rule snd_buildDisplayList)
  have 5: "sorted (map groupName (snd (buildDisplayList skills)))"
    by (rule sorted_display)
  have 6: "grouped_output es' linked = grouped_output es linked"
    if "mset es' = mset es"
    unfolding grouped_output_def sorted_skills_def using sort_skills_perm [OF that] by simp
  show ?thesis
    unfolding grouped_output_def skills_def [symmetric]
    using a b s 0 1 2 3 4 5 6 [unfolded grouped_output_def skills_def [symmetric]]
    by (intro conjI ballI impI) (assumption | blast)+
qed

theorem grouped_output_sorted_witness:
  "mset (rev (entries store_dir)) = mset (entries store_dir) \<and>
   grouped_output (rev (entries store_dir)) (\<lambda>n. n = ''docs'') =
     grouped_output (entries store_dir) (\<lambda>n. n = ''docs'') \<and>
   map Name (sorted_skills (entries store_dir) (\<lambda>n. n = ''docs'')) =
     [''docs'', ''auth-jwt'', ''react-best-practices'', ''vue-testing''] \<and>
   fst (grouped_output (entries store_dir) (\<lambda>n. n = ''docs'')) =
     [\<lparr>Name_g = ''_other'', Skills_g = [0]\<rparr>, \<lparr>Name_g = ''auth'', Skills_g = [1]\<rparr>,
      \<lparr>Name_g = ''react'', Skills_g = [2]\<rparr>, \<lparr>Name_g = ''vue'', Skills_g = [3]\<rparr>] \<and>
   map (\<lambda>r. (isGroup r, groupIdx r, skillIdx r, groupName r))
     (snd (grouped_output (entries store_dir) (\<lambda>n. n = ''docs''))) =
     [(True, 0, 0, ''_other''), (False, 0, 0, ''_other''),
      (True, 1, 0, ''auth''), (False, 0, 1, ''auth''),
      (True, 2, 0, ''react''), (False, 0, 2, ''react''),
      (True, 3, 0, ''vue''), (False, 0, 3, ''vue'')]"
proof -
  have perm: "mset (rev (entries store_dir)) = mset (entries store_dir)"
    by simp
  have "mset (rev (entries store_dir)) = mset (entries store_dir) \<longrightarrow>
      grouped_output (rev (entries store_dir)) (\<lambda>n. n = ''docs'') =
      grouped_output (entries store_dir) (\<lambda>n. n = ''docs'')"
    using grouped_output_sorted [of "entries store_dir" "\<lambda>n. n = ''docs''"
        "rev (entries store_dir)"]
    by (elim conjE)
  with perm have same: "grouped_output (rev (entries store_dir)) (\<lambda>n. n = ''docs'') =
      grouped_output (entries store_dir) (\<lambda>n. n = ''docs'')"
    by (rule rev_mp)
  have out: "map Name (sorted_skills (entries store_dir) (\<lambda>n. n = ''docs'')) =
     [''docs'', ''auth-jwt'', ''react-best-practices'', ''vue-testing''] \<and>
   fst (grouped_output (entries store_dir) (\<lambda>n. n = ''docs'')) =
     [\<lparr>Name_g = ''_other'', Skills_g = [0]\<rparr>, \<lparr>Name_g = ''auth'', Skills_g = [1]\<rparr>,
      \<lparr>Name_g = ''react'', Skills_g = [2]\<rparr>, \<lparr>Name_g = ''vue'', Skills_g = [3]\<rparr>] \<and>
   map (\<lambda>r. (isGroup r, groupIdx r, skillIdx r, groupName r))
     (snd (grouped_output (entries store_dir) (\<lambda>n. n = ''docs''))) =
     [(True, 0, 0, ''_other''), (False, 0, 0, ''_other''),
      (True, 1, 0, ''auth''), (False, 0, 1, ''auth''),
      (True, 2, 0, ''react''), (False, 0, 2, ''react''),
      (True, 3, 0, ''vue''), (False, 0, 3, ''vue'')]"
    by (simp add: grouped_output_def sorted_skills_def sort_skills_def skill_key_def
        extractGroup_def buildDisplayList_def sorted_group_names_def lookup_slice_def
        example_defs Let_def)
  from perm same out show ?thesis by (intro conjI) (elim conjE; assumption)+
qed

section \<open>Applying a selection: one item, then the loop\<close>

lemma map_of_filter_neq:
  "map_of (filter (\<lambda>e. fst e \<noteq> n) xs) k = (if k = n then None else map_of xs k)"
  by (induction xs) auto

lemma apply_item_absent:
  "(\<forall>d. dirs fs (Path p) \<noteq> Present d) \<Longrightarrow> snd (apply_item p sdir s fs) = fs"
  by (auto simp: apply_item_def Let_def os_Symlink_def os_Remove_def split: dirstate.splits)

lemma same_dir: "dirs fs P = Present d \<Longrightarrow> fs\<lparr>dirs := (dirs fs)(P := Present d)\<rparr> = fs"
  by (simp add: fun_upd_idem)

lemma apply_item_present:
  assumes "dirs fs (Path p) = Present d"
  shows "snd (apply_item p sdir s fs) =
     fs\<lparr>dirs := (dirs fs)(Path p := Present (item_dir (link_target p sdir (Name s)) s d))\<rparr>"
  using assms same_dir [OF assms]
  by (auto simp: apply_item_def Let_def os_Symlink_def os_Remove_def item_dir_def link_target_def
      split: option.splits)

lemma item_dir_flags:
  "readable (item_dir t s d) = readable d \<and> writable (item_dir t s d) = writable d \<and> mode (item_dir t s d) = mode d"
  by (simp add: item_dir_def)

lemma item_dir_lookup:
  "map_of (entries (item_dir t s d)) n =
     (if n = Name s then item_result t s (writable d) (map_of (entries d) n) else map_of (entries d) n)"
  by (auto simp: item_dir_def item_result_def map_add_def map_of_filter_neq split: option.splits)

lemma apply_item_error:
  "fst (apply_item p sdir s fs) = None \<longleftrightarrow>
     (Selected s \<and> \<not> Linked s \<longrightarrow> (\<exists>d. dirs fs (Path p) = Present d \<and> writable d \<and> map_of (entries d) (Name s) = None)) \<and>
     (\<not> Selected s \<and> Linked s \<longrightarrow> (\<exists>d nd. dirs fs (Path p) = Present d \<and> writable d \<and> map_of (entries d) (Name s) = Some nd \<and> nd \<noteq> Dir True))"
  by (auto simp: apply_item_def Let_def os_Symlink_def os_Remove_def split: dirstate.splits option.splits)


lemma apply_item_lookup:
  "lookup_entry (snd (apply_item p sdir s fs)) (Path p) n =
     (if n = Name s
      then item_result (link_target p sdir n) s (dir_writable fs (Path p)) (lookup_entry fs (Path p) n)
      else lookup_entry fs (Path p) n)"
proof (cases "dirs fs (Path p)")
  case (Present d)
  then show ?thesis
    by (simp add: apply_item_present lookup_entry_def dir_writable_def item_dir_lookup)
next
  case Missing
  then have "snd (apply_item p sdir s fs) = fs" by (simp add: apply_item_absent)
  with Missing show ?thesis
    by (simp add: lookup_entry_def dir_writable_def item_result_def)
next
  case NotDirectory
  then have "snd (apply_item p sdir s fs) = fs" by (simp add: apply_item_absent)
  with NotDirectory show ?thesis
    by (simp add: lookup_entry_def dir_writable_def item_result_def)
qed

lemma same_but_entries_refl: "same_but_entries dir fs fs"
  by (simp add: same_but_entries_def split: dirstate.splits)

lemma same_but_entries_trans:
  "same_but_entries dir fs fs1 \<Longrightarrow> same_but_entries dir fs1 fs2 \<Longrightarrow> same_but_entries dir fs fs2"
  by (auto simp: same_but_entries_def split: dirstate.splits)

lemma apply_item_frame: "same_but_entries (Path p) fs (snd (apply_item p sdir s fs))"
proof (cases "dirs fs (Path p)")
  case (Present d)
  then show ?thesis
    by (simp add: apply_item_present same_but_entries_def item_dir_flags)
next
  case Missing
  then have "snd (apply_item p sdir s fs) = fs" by (simp add: apply_item_absent)
  then show ?thesis by (simp add: same_but_entries_refl)
next
  case NotDirectory
  then have "snd (apply_item p sdir s fs) = fs" by (simp add: apply_item_absent)
  then show ?thesis by (simp add: same_but_entries_refl)
qed

lemma apply_loop_Cons:
  "apply_loop p sdir (s # rest) fs =
     (fst (apply_item p sdir s fs) # fst (apply_loop p sdir rest (snd (apply_item p sdir s fs))),
      snd (apply_loop p sdir rest (snd (apply_item p sdir s fs))))"
  by (simp split: prod.splits)

lemma apply_loop_frame: "same_but_entries (Path p) fs (snd (apply_loop p sdir skills fs))"
proof (induction skills arbitrary: fs)
  case Nil
  show ?case by (simp add: same_but_entries_refl)
next
  case (Cons s rest)
  show ?case
    unfolding apply_loop_Cons snd_conv
    by (rule same_but_entries_trans [OF apply_item_frame Cons.IH])
qed

lemma same_but_entries_writable:
  "same_but_entries dir fs fs' \<Longrightarrow> dir_writable fs' dir = dir_writable fs dir"
  by (auto simp: same_but_entries_def dir_writable_def split: dirstate.splits)

lemma apply_loop_lookup:
  "distinct (map Name skills) \<Longrightarrow>
   lookup_entry (snd (apply_loop p sdir skills fs)) (Path p) n =
     (case find (\<lambda>s. Name s = n) skills of
        None \<Rightarrow> lookup_entry fs (Path p) n
      | Some s \<Rightarrow> item_result (link_target p sdir n) s (dir_writable fs (Path p))
                   (lookup_entry fs (Path p) n))"
proof (induction skills arbitrary: fs)
  case Nil
  show ?case by simp
next
  case (Cons s rest)
  let ?fs1 = "snd (apply_item p sdir s fs)"
  have d: "distinct (map Name rest)" and fresh: "Name s \<notin> Name ` set rest"
    using Cons.prems by auto
  have w: "dir_writable ?fs1 (Path p) = dir_writable fs (Path p)"
    by (rule same_but_entries_writable [OF apply_item_frame])
  have IH: "lookup_entry (snd (apply_loop p sdir rest ?fs1)) (Path p) n =
     (case find (\<lambda>s. Name s = n) rest of
        None \<Rightarrow> lookup_entry ?fs1 (Path p) n
      | Some t \<Rightarrow> item_result (link_target p sdir n) t (dir_writable fs (Path p))
                   (lookup_entry ?fs1 (Path p) n))"
    using Cons.IH [OF d, of ?fs1] unfolding w .
  show ?case
  proof (cases "n = Name s")
    case True
    with fresh have "find (\<lambda>s. Name s = n) rest = None"
      unfolding find_None_iff by (metis imageI)
    with True show ?thesis
      unfolding apply_loop_Cons snd_conv IH
      by (simp add: apply_item_lookup)
  next
    case False
    then have eq: "lookup_entry ?fs1 (Path p) n = lookup_entry fs (Path p) n"
      by (simp add: apply_item_lookup)
    from False show ?thesis
      unfolding apply_loop_Cons snd_conv IH eq by simp
  qed
qed

lemma apply_item_ok_present:
  assumes "fst (apply_item p sdir s fs) = None"
  shows "(lookup_entry (snd (apply_item p sdir s fs)) (Path p) n \<noteq> None) =
     (if n = Name s \<and> Selected s \<noteq> Linked s then Selected s
      else lookup_entry fs (Path p) n \<noteq> None)"
  using assms unfolding apply_item_lookup apply_item_error
  by (auto simp: item_result_def lookup_entry_def dir_writable_def)

lemma apply_loop_ok_present:
  assumes "\<forall>e \<in> set (fst (apply_loop p sdir skills fs)). e = None"
    and "\<forall>s \<in> set skills. Linked s = pres0 (Name s) \<and> Selected s = sel (Name s)"
    and "\<forall>n. (lookup_entry fs (Path p) n \<noteq> None) = (if n \<in> D then sel n else pres0 n)"
  shows "(lookup_entry (snd (apply_loop p sdir skills fs)) (Path p) n \<noteq> None) =
     (if n \<in> D \<union> Name ` set skills then sel n else pres0 n)"
  using assms
proof (induction skills arbitrary: fs D)
  case Nil
  then show ?case by simp
next
  case (Cons s rest)
  let ?fs1 = "snd (apply_item p sdir s fs)"
  from Cons.prems(1) have ok: "fst (apply_item p sdir s fs) = None"
    and oks: "\<forall>e \<in> set (fst (apply_loop p sdir rest ?fs1)). e = None"
    unfolding apply_loop_Cons by simp_all
  have flags: "Linked s = pres0 (Name s)" "Selected s = sel (Name s)"
    and rest: "\<forall>s \<in> set rest. Linked s = pres0 (Name s) \<and> Selected s = sel (Name s)"
    using Cons.prems(2) by simp_all
  have inv: "\<forall>k. (lookup_entry ?fs1 (Path p) k \<noteq> None) =
       (if k \<in> insert (Name s) D then sel k else pres0 k)"
    using Cons.prems(3) flags unfolding apply_item_ok_present [OF ok] by auto
  have "(lookup_entry (snd (apply_loop p sdir rest ?fs1)) (Path p) n \<noteq> None) =
     (if n \<in> insert (Name s) D \<union> Name ` set rest then sel n else pres0 n)"
    by (rule Cons.IH [OF oks rest inv])
  then show ?case
    unfolding apply_loop_Cons snd_conv by simp
qed

lemma apply_loop_noop:
  "\<forall>s \<in> set skills. Selected s = Linked s \<Longrightarrow>
     apply_loop p sdir skills fs = (map (\<lambda>s. None) skills, fs)"
  by (induction skills arbitrary: fs) (auto simp: apply_item_def Let_def)

lemma mark_linked_eq:
  "mark_linked es m n = (m n \<or> (n \<noteq> ''.DS_Store'' \<and> n \<in> fst ` set es))"
  by (induction es arbitrary: m) auto

lemma linkedSkills_eq:
  assumes "Configured p" "dirs fs (Path p) = Present d" "readable d"
  shows "linkedSkills p fs n = (n \<noteq> ''.DS_Store'' \<and> lookup_entry fs (Path p) n \<noteq> None)"
  using assms
  by (simp add: linkedSkills_def os_ReadDir_def mark_linked_eq lookup_entry_def
      map_of_eq_None_iff)

lemma set_collect_skills:
  "set (collect_skills es linked) = entry_of linked ` fst ` {e \<in> set es. is_skill e}"
  by (auto simp: collect_skills_eq)

lemma loaded_entry:
  assumes "s \<in> set (loadSkillsForProvider p fs)"
  shows "Name s \<noteq> ''.DS_Store'' \<and> s = entry_of (linkedSkills p fs) (Name s)"
  using assms
  by (auto simp: loadSkillsForProvider_def sort_skills_def set_collect_skills entry_of_def
      is_skill_def split: sum.splits)

lemma loaded_names:
  "Name ` set (loadSkillsForProvider p fs) =
     (case os_ReadDir (skillsDir fs) fs of
        Inl err \<Rightarrow> {}
      | Inr es \<Rightarrow> fst ` {e \<in> set es. is_skill e})"
  by (auto simp: loadSkillsForProvider_def sort_skills_def set_collect_skills entry_of_def
      image_image split: sum.splits)

lemma set_select:
  "set (select sel skills) = (\<lambda>s. s\<lparr>Selected := sel (Name s)\<rparr>) ` set skills"
  by (simp add: select_def)

lemma same_but_entries_ReadDir:
  "same_but_entries dir fs fs' \<Longrightarrow> q \<noteq> dir \<Longrightarrow> os_ReadDir q fs' = os_ReadDir q fs"
  by (simp add: same_but_entries_def os_ReadDir_def)

lemma apply_loop_nth:
  "k < length skills \<Longrightarrow>
     fst (apply_loop p sdir skills fs) ! k =
       fst (apply_item p sdir (skills ! k) (snd (apply_loop p sdir (take k skills) fs)))"
proof (induction skills arbitrary: fs k)
  case Nil
  then show ?case by simp
next
  case (Cons s rest)
  show ?case
  proof (cases k)
    case 0
    then show ?thesis unfolding apply_loop_Cons by simp
  next
    case (Suc j)
    with Cons.prems have "j < length rest" by simp
    from Cons.IH [OF this] Suc show ?thesis
      by (simp add: apply_loop_Cons del: apply_loop.simps(2))
  qed
qed

lemma length_apply_loop: "length (fst (apply_loop p sdir skills fs)) = length skills"
  by (induction skills arbitrary: fs) (simp_all add: apply_loop_Cons del: apply_loop.simps(2))

lemma apply_loop_absent:
  "(\<forall>d. dirs fs (Path p) \<noteq> Present d) \<Longrightarrow> snd (apply_loop p sdir skills fs) = fs"
  by (induction skills arbitrary: fs)
    (simp_all add: apply_loop_Cons apply_item_absent del: apply_loop.simps(2))

lemma find_distinct_name:
  "distinct (map Name skills) \<Longrightarrow> s \<in> set skills \<Longrightarrow>
     find (\<lambda>t. Name t = Name s) skills = Some s"
  by (induction skills) (auto simp: image_iff)

lemma find_name_Some:
  "find (\<lambda>t. Name t = n) skills = Some s \<Longrightarrow> s \<in> set skills \<and> Name s = n"
  by (induction skills) (auto split: if_splits)


lemmas run_defs =
  loadSkillsForProvider_def skillsDir_def linkedSkills_def os_ReadDir_def filepath_Join_def
  filepath_Rel_def Let_def sort_skills_def skill_key_def extractGroup_def select_def
  applySkillChanges_def apply_item_def os_Symlink_def os_Remove_def os_MkdirAll_def
  item_errors_def planned_def lookup_entry_def

section \<open>Entries that the program did not make\<close>

text \<open>
  Claim C1, as the code has it. The code does not classify the entries of a provider
  directory: every entry, a link of its own or not, is treated alike. For every entry,
  \<open>applySkillChanges\<close> on a list with one skill for each name never overwrites it: after
  the run the name holds the same entry or none. It holds none only if the entry is not
  a directory with content and the list has the name marked linked and not selected.
  An entry that carries the name of a central skill is marked linked by
  \<open>loadSkillsForProvider\<close> (for a configured provider whose directory can be listed),
  so its plan is never \<open>CreateLink\<close>: it is \<open>NoOp\<close> while the name stays selected and
  \<open>RemoveLink\<close> once the user deselects it, and the run then deletes the entry.
\<close>

theorem entries_never_overwritten:
  assumes "lookup_entry fs (Path p) n = Some node"
  shows "(distinct (map Name skills) \<longrightarrow>
           (lookup_entry (snd (applySkillChanges p skills fs)) (Path p) n = Some node \<or>
            lookup_entry (snd (applySkillChanges p skills fs)) (Path p) n = None) \<and>
           (lookup_entry (snd (applySkillChanges p skills fs)) (Path p) n = None \<longrightarrow>
              node \<noteq> Dir True \<and> (\<exists>s \<in> set skills. Name s = n \<and> \<not> Selected s \<and> Linked s))) \<and>
         (Configured p \<and> (\<exists>d. dirs fs (Path p) = Present d \<and> readable d) \<and> n \<noteq> ''.DS_Store'' \<longrightarrow>
           (\<forall>s \<in> set (select sel (loadSkillsForProvider p fs)).
              Name s = n \<longrightarrow> planned s = (if sel n then NoOp else RemoveLink)))"
proof -
  from assms obtain d where d: "dirs fs (Path p) = Present d"
    by (auto simp: lookup_entry_def split: dirstate.splits)
  then have run: "snd (applySkillChanges p skills fs) = snd (apply_loop p (skillsDir fs) skills fs)"
    by (simp add: applySkillChanges_def os_MkdirAll_def)
  have A: "(lookup_entry (snd (applySkillChanges p skills fs)) (Path p) n = Some node \<or>
            lookup_entry (snd (applySkillChanges p skills fs)) (Path p) n = None) \<and>
           (lookup_entry (snd (applySkillChanges p skills fs)) (Path p) n = None \<longrightarrow>
              node \<noteq> Dir True \<and> (\<exists>s \<in> set skills. Name s = n \<and> \<not> Selected s \<and> Linked s))"
    if dist: "distinct (map Name skills)"
  proof (cases "find (\<lambda>s. Name s = n) skills")
    case None
    then show ?thesis
      unfolding run apply_loop_lookup [OF dist] using assms by simp
  next
    case (Some s)
    from find_name_Some [OF Some] have "s \<in> set skills" "Name s = n" by simp_all
    then show ?thesis
      unfolding run apply_loop_lookup [OF dist] Some using assms
      by (auto simp: item_result_def split: if_splits)
  qed
  have B: "planned s = (if sel n then NoOp else RemoveLink)"
    if conf: "Configured p" and r: "readable d" and ds: "n \<noteq> ''.DS_Store''"
      and s: "s \<in> set (select sel (loadSkillsForProvider p fs))" and n: "Name s = n" for s
  proof -
    from s obtain t where t: "t \<in> set (loadSkillsForProvider p fs)"
      and st: "s = t\<lparr>Selected := sel (Name t)\<rparr>"
      by (auto simp: set_select)
    from loaded_entry [OF t] have "Linked t = linkedSkills p fs (Name t)"
      by (simp add: entry_of_def) (metis SkillEntry.select_convs(3))
    with n st ds assms have "Linked t" 
      by (simp add: linkedSkills_eq [OF conf d r])
    with n st show ?thesis by (simp add: planned_def)
  qed
  from A B d show ?thesis by auto
qed


theorem entries_never_overwritten_witness:
  "lookup_entry example_fs (Path claude) ''auth-jwt'' = Some File \<and>
   distinct (map Name (select (wanted [''auth-jwt'', ''vue-testing''])
                         (loadSkillsForProvider claude example_fs))) \<and>
   lookup_entry
     (snd (applySkillChanges claude
             (select (wanted [''auth-jwt'', ''vue-testing''])
                (loadSkillsForProvider claude example_fs)) example_fs))
     (Path claude) ''auth-jwt'' = Some File \<and>
   map planned (select (wanted [''auth-jwt'', ''vue-testing''])
                  (loadSkillsForProvider claude example_fs)) =
     [RemoveLink, NoOp, RemoveLink, CreateLink]"
  using entries_never_overwritten [of example_fs claude "''auth-jwt''" File
      "select (wanted [''auth-jwt'', ''vue-testing'']) (loadSkillsForProvider claude example_fs)"
      "wanted [''auth-jwt'', ''vue-testing'']"]
  by (simp add: run_defs example_defs)

text \<open>
  The claim as the specification words it fails. The provider directory of the example
  holds a regular file \<open>auth-jwt\<close>, which is no link at all. It is listed as linked;
  when the user deselects it the plan is \<open>RemoveLink\<close> and the run deletes the file.
  \<open>LinkToProvider\<close> for the same name removes the file and puts a link in its place.
\<close>

theorem foreign_entry_deleted_counterexample:
  "lookup_entry example_fs (Path claude) ''auth-jwt'' = Some File \<and>
   map (\<lambda>s. (Name s, planned s))
     (select (wanted [''react-best-practices'', ''vue-testing''])
        (loadSkillsForProvider claude example_fs)) =
     [(''docs'', RemoveLink), (''auth-jwt'', RemoveLink),
      (''react-best-practices'', NoOp), (''vue-testing'', CreateLink)] \<and>
   lookup_entry
     (snd (applySkillChanges claude
             (select (wanted [''react-best-practices'', ''vue-testing''])
                (loadSkillsForProvider claude example_fs)) example_fs))
     (Path claude) ''auth-jwt'' = None \<and>
   lookup_entry (snd (LinkToProvider example_store ''auth-jwt'' (Path claude) example_fs))
     (Path claude) ''auth-jwt'' = Some (Link ''../../.agents/skills/auth-jwt'')"
  by (simp add: run_defs LinkToProvider_def example_defs)

section \<open>Applying twice\<close>

text \<open>
  Claim C2, as the code has it. For every configured provider whose directory can be
  listed and differs from the central store, every state and every selection: if every
  operation of the run succeeds, then loading the skills again from the state the run
  leaves and planning against the same selection gives \<open>NoOp\<close> for every skill, and
  applying again leaves the file system as it is. The errors of the operations are
  dropped, so without that condition the second plan can repeat the first.
\<close>

theorem reapply_is_noop:
  assumes conf: "Configured p"
    and listable: "dirs fs (Path p) = Present d" "readable d"
    and apart: "Path p \<noteq> skillsDir fs"
    and ok: "\<forall>e \<in> set (item_errors p (select sel (loadSkillsForProvider p fs)) fs). e = None"
  shows "(\<forall>s \<in> set (select sel (loadSkillsForProvider p
              (snd (applySkillChanges p (select sel (loadSkillsForProvider p fs)) fs)))).
            planned s = NoOp) \<and>
         snd (applySkillChanges p
                (select sel (loadSkillsForProvider p
                   (snd (applySkillChanges p (select sel (loadSkillsForProvider p fs)) fs))))
                (snd (applySkillChanges p (select sel (loadSkillsForProvider p fs)) fs))) =
           snd (applySkillChanges p (select sel (loadSkillsForProvider p fs)) fs)"
proof -
  define skills where "skills = select sel (loadSkillsForProvider p fs)"
  define fs' where "fs' = snd (applySkillChanges p skills fs)"
  define pres0 where "pres0 = (\<lambda>n. lookup_entry fs (Path p) n \<noteq> None)"
  have fs': "fs' = snd (apply_loop p (skillsDir fs) skills fs)"
    using conf by (simp add: fs'_def applySkillChanges_def)
  have oks: "\<forall>e \<in> set (fst (apply_loop p (skillsDir fs) skills fs)). e = None"
    using ok conf by (simp add: item_errors_def skills_def)
  have frame: "same_but_entries (Path p) fs fs'"
    unfolding fs' by (rule apply_loop_frame)
  then have home: "skillsDir fs' = skillsDir fs"
    by (simp add: same_but_entries_def skillsDir_def)
  have central: "os_ReadDir (skillsDir fs') fs' = os_ReadDir (skillsDir fs) fs"
    unfolding home using same_but_entries_ReadDir [OF frame] apart by simp
  from frame listable obtain d' where d': "dirs fs' (Path p) = Present d'" "readable d'"
    by (auto simp: same_but_entries_def)
  have flags: "\<forall>s \<in> set skills. Linked s = pres0 (Name s) \<and> Selected s = sel (Name s)"
  proof
    fix s assume "s \<in> set skills"
    then obtain t where t: "t \<in> set (loadSkillsForProvider p fs)"
      and s: "s = t\<lparr>Selected := sel (Name t)\<rparr>"
      by (auto simp: skills_def set_select)
    from loaded_entry [OF t] have "Name t \<noteq> ''.DS_Store''"
      and "Linked t = linkedSkills p fs (Name t)"
      by (simp_all add: entry_of_def) (metis SkillEntry.select_convs(3))
    then show "Linked s = pres0 (Name s) \<and> Selected s = sel (Name s)"
      by (simp add: s pres0_def linkedSkills_eq [OF conf listable])
  qed
  have start: "\<forall>n. (lookup_entry fs (Path p) n \<noteq> None) = (if n \<in> {} then sel n else pres0 n)"
    by (simp add: pres0_def)
  have after: "(lookup_entry fs' (Path p) n \<noteq> None) =
      (if n \<in> Name ` set skills then sel n else pres0 n)" for n
    unfolding fs' using apply_loop_ok_present [OF oks flags start, of n] by simp
  have names: "Name ` set (loadSkillsForProvider p fs') = Name ` set skills"
    by (simp add: loaded_names central skills_def set_select image_image)
  have same: "\<forall>s \<in> set (select sel (loadSkillsForProvider p fs')). Selected s = Linked s"
  proof
    fix s assume "s \<in> set (select sel (loadSkillsForProvider p fs'))"
    then obtain t where t: "t \<in> set (loadSkillsForProvider p fs')"
      and s: "s = t\<lparr>Selected := sel (Name t)\<rparr>"
      by (auto simp: set_select)
    from loaded_entry [OF t] have ds: "Name t \<noteq> ''.DS_Store''"
      and "Linked t = linkedSkills p fs' (Name t)"
      by (simp_all add: entry_of_def) (metis SkillEntry.select_convs(3))
    then have "Linked t = (lookup_entry fs' (Path p) (Name t) \<noteq> None)"
      by (simp add: linkedSkills_eq [OF conf d'])
    moreover from t names have "Name t \<in> Name ` set skills" by blast
    ultimately have "Linked t = sel (Name t)"
      using after [of "Name t"] by simp
    then show "Selected s = Linked s" by (simp add: s)
  qed
  then have plan: "\<forall>s \<in> set (select sel (loadSkillsForProvider p fs')). planned s = NoOp"
    by (simp add: planned_def)
  have again: "snd (applySkillChanges p (select sel (loadSkillsForProvider p fs')) fs') = fs'"
    using conf by (simp add: applySkillChanges_def apply_loop_noop [OF same])
  from plan again show ?thesis
    unfolding fs'_def skills_def by simp
qed

theorem reapply_is_noop_witness:
  "Configured claude \<and> dirs example_fs (Path claude) = Present claude_dir \<and>
   readable claude_dir \<and> Path claude \<noteq> skillsDir example_fs \<and>
   item_errors claude
     (select (wanted [''docs'', ''react-best-practices'', ''vue-testing''])
        (loadSkillsForProvider claude example_fs)) example_fs = [None, None, None, None] \<and>
   map planned
     (select (wanted [''docs'', ''react-best-practices'', ''vue-testing''])
        (loadSkillsForProvider claude
           (snd (applySkillChanges claude
                   (select (wanted [''docs'', ''react-best-practices'', ''vue-testing''])
                      (loadSkillsForProvider claude example_fs)) example_fs)))) =
     [NoOp, NoOp, NoOp, NoOp]"
  using reapply_is_noop [of claude example_fs claude_dir
      "wanted [''docs'', ''react-best-practices'', ''vue-testing'']"]
  by (simp add: run_defs example_defs)

text \<open>
  The claim as the specification words it fails where an operation fails. In the
  example with the provider directory closed to changes, selecting \<open>vue-testing\<close>
  plans \<open>CreateLink\<close>; the link cannot be made, and the plan after the run is the same.
\<close>

theorem replan_not_noop_counterexample:
  "map (\<lambda>s. (Name s, planned s))
     (select (wanted [''docs'', ''auth-jwt'', ''react-best-practices'', ''vue-testing''])
        (loadSkillsForProvider claude readonly_fs)) =
     [(''docs'', NoOp), (''auth-jwt'', NoOp), (''react-best-practices'', NoOp),
      (''vue-testing'', CreateLink)] \<and>
   map (\<lambda>s. (Name s, planned s))
     (select (wanted [''docs'', ''auth-jwt'', ''react-best-practices'', ''vue-testing''])
        (loadSkillsForProvider claude
           (snd (applySkillChanges claude
                   (select (wanted [''docs'', ''auth-jwt'', ''react-best-practices'',
                                    ''vue-testing''])
                      (loadSkillsForProvider claude readonly_fs)) readonly_fs)))) =
     [(''docs'', NoOp), (''auth-jwt'', NoOp), (''react-best-practices'', NoOp),
      (''vue-testing'', CreateLink)]"
  by (simp add: run_defs example_defs)

text \<open>
  The theorem is about configured providers. For a provider that was not configured,
  the run creates the directory and the link, but the interface reloads with the
  provider value it already had, whose \<open>Configured\<close> is still false, and so lists every
  skill as not linked.
\<close>

lemma unconfigured_reload_example:
  "map (\<lambda>s. (Name s, Linked s))
     (loadSkillsForProvider claude_unconfigured
        (snd (applySkillChanges claude_unconfigured
                (select (wanted [''vue-testing''])
                   (loadSkillsForProvider claude_unconfigured unconfigured_fs))
                unconfigured_fs))) =
     [(''docs'', False), (''auth-jwt'', False), (''react-best-practices'', False),
      (''vue-testing'', False)] \<and>
   lookup_entry
     (snd (applySkillChanges claude_unconfigured
             (select (wanted [''vue-testing''])
                (loadSkillsForProvider claude_unconfigured unconfigured_fs))
             unconfigured_fs))
     (Path claude_unconfigured) ''vue-testing'' =
     Some (Link ''../../.agents/skills/vue-testing'')"
  by (simp add: run_defs example_defs)


section \<open>Failures during a run\<close>

text \<open>
  Claim C8, as the code has it. \<open>applySkillChanges\<close> goes through every skill of the
  list, in order: each operation is attempted in the state that the skills before it
  left, whether or not their operations failed, and with one skill for each name a
  skill leaves under its name what it would leave if it were applied alone. Nothing is
  returned: the result is the unit value, and the error of each operation is dropped.
\<close>

theorem items_run_independently:
  "length (item_errors p skills fs) = length skills \<and>
   (\<forall>k < length skills.
      item_errors p skills fs ! k =
        fst (apply_item p (skillsDir fs) (skills ! k)
               (snd (applySkillChanges p (take k skills) fs)))) \<and>
   (distinct (map Name skills) \<longrightarrow>
      (\<forall>s \<in> set skills.
         lookup_entry (snd (applySkillChanges p skills fs)) (Path p) (Name s) =
         lookup_entry (snd (applySkillChanges p [s] fs)) (Path p) (Name s))) \<and>
   fst (applySkillChanges p skills fs) = ()"
proof -
  define fs1 where
    "fs1 = (if \<not> Configured p then snd (os_MkdirAll (Path p) 493 fs) else fs)"
  have run: "snd (applySkillChanges p xs fs) = snd (apply_loop p (skillsDir fs) xs fs1)" for xs
    by (simp add: applySkillChanges_def fs1_def)
  have errs: "item_errors p skills fs = fst (apply_loop p (skillsDir fs) skills fs1)"
    by (simp add: item_errors_def fs1_def)
  have 1: "length (item_errors p skills fs) = length skills"
    unfolding errs by (rule length_apply_loop)
  have 2: "item_errors p skills fs ! k =
        fst (apply_item p (skillsDir fs) (skills ! k)
               (snd (applySkillChanges p (take k skills) fs)))" if "k < length skills" for k
    unfolding errs run by (rule apply_loop_nth [OF that])
  have 3: "lookup_entry (snd (applySkillChanges p skills fs)) (Path p) (Name s) =
         lookup_entry (snd (applySkillChanges p [s] fs)) (Path p) (Name s)"
    if dist: "distinct (map Name skills)" and s: "s \<in> set skills" for s
  proof -
    have one: "distinct (map Name [s])" by simp
    show ?thesis
      unfolding run apply_loop_lookup [OF dist] apply_loop_lookup [OF one]
        find_distinct_name [OF dist s]
      by simp
  qed
  from 1 2 3 show ?thesis by simp
qed

theorem items_run_independently_witness:
  "distinct (map Name (select (wanted [''react-best-practices'', ''vue-testing''])
                         (loadSkillsForProvider claude example_fs))) \<and>
   item_errors claude
     (select (wanted [''react-best-practices'', ''vue-testing''])
        (loadSkillsForProvider claude example_fs)) example_fs =
     [Some ENOTEMPTY, None, None, None] \<and>
   map (lookup_entry
          (snd (applySkillChanges claude
                  (select (wanted [''react-best-practices'', ''vue-testing''])
                     (loadSkillsForProvider claude example_fs)) example_fs))
          (Path claude))
     [''docs'', ''auth-jwt'', ''react-best-practices'', ''vue-testing''] =
     [Some (Dir True), None, Some (Link ''../../.agents/skills/react-best-practices''),
      Some (Link ''../../.agents/skills/vue-testing'')]"
  using items_run_independently [of claude
      "select (wanted [''react-best-practices'', ''vue-testing''])
         (loadSkillsForProvider claude example_fs)" example_fs]
  by (simp add: run_defs example_defs)

text \<open>
  The claim as the specification words it fails: no outcome is returned. In the example
  with the provider directory closed to changes, making the link for \<open>vue-testing\<close>
  fails with \<open>EACCES\<close>; the run returns the unit value and leaves the file system as it
  was, which is also all that the run returns where every operation succeeds.
\<close>

theorem failure_not_reported_counterexample:
  "item_errors claude
     (select (wanted [''docs'', ''auth-jwt'', ''react-best-practices'', ''vue-testing''])
        (loadSkillsForProvider claude readonly_fs)) readonly_fs =
     [None, None, None, Some EACCES] \<and>
   applySkillChanges claude
     (select (wanted [''docs'', ''auth-jwt'', ''react-best-practices'', ''vue-testing''])
        (loadSkillsForProvider claude readonly_fs)) readonly_fs = ((), readonly_fs) \<and>
   fst (applySkillChanges claude
          (select (wanted [''docs'', ''auth-jwt'', ''react-best-practices'', ''vue-testing''])
             (loadSkillsForProvider claude readonly_fs)) readonly_fs) =
   fst (applySkillChanges claude
          (select (wanted [''docs'', ''auth-jwt'', ''react-best-practices'', ''vue-testing''])
             (loadSkillsForProvider claude example_fs)) example_fs)"
  by (simp add: run_defs example_defs)

section \<open>A provider without a directory\<close>

text \<open>
  Claim C9, as the code has it. For a provider that is not configured and whose
  directory does not exist, \<open>applySkillChanges\<close> first calls \<open>os.MkdirAll\<close> with mode
  0755 (493) and drops its error. Where the directory can be created, the skills are
  processed in the new, empty directory: after the run the directory exists with that
  mode, and with one skill for each name every skill that is selected and not marked
  linked has its link there. Where it cannot be created, the run still returns, and
  leaves the file system as it was: no directory, no link, no error.
\<close>

theorem unconfigured_provider_created:
  assumes "\<not> Configured p" and "dirs fs (Path p) = Missing"
  shows "(creatable fs (Path p) \<longrightarrow>
           snd (applySkillChanges p skills fs) =
             snd (apply_loop p (skillsDir fs) skills
                    (fs\<lparr>dirs := (dirs fs)(Path p :=
                       Present \<lparr>readable = True, writable = True, mode = 493,
                                entries = []\<rparr>)\<rparr>)) \<and>
           (\<exists>d. dirs (snd (applySkillChanges p skills fs)) (Path p) = Present d \<and>
                 mode d = 493 \<and> readable d \<and> writable d) \<and>
           (distinct (map Name skills) \<longrightarrow>
              (\<forall>s \<in> set skills. Selected s \<and> \<not> Linked s \<longrightarrow>
                 lookup_entry (snd (applySkillChanges p skills fs)) (Path p) (Name s) =
                   Some (Link (link_target p (skillsDir fs) (Name s)))))) \<and>
         (\<not> creatable fs (Path p) \<longrightarrow> applySkillChanges p skills fs = ((), fs))"
proof -
  let ?fresh = "fs\<lparr>dirs := (dirs fs)(Path p :=
      Present \<lparr>readable = True, writable = True, mode = 493, entries = []\<rparr>)\<rparr>"
  have sealed: "applySkillChanges p skills fs = ((), fs)" if "\<not> creatable fs (Path p)"
    using that assms
    by (simp add: applySkillChanges_def os_MkdirAll_def apply_loop_absent)
  have run: "snd (applySkillChanges p skills fs) = snd (apply_loop p (skillsDir fs) skills ?fresh)"
    if "creatable fs (Path p)"
    using that assms by (simp add: applySkillChanges_def os_MkdirAll_def)
  have frame: "same_but_entries (Path p) ?fresh (snd (apply_loop p (skillsDir fs) skills ?fresh))"
    by (rule apply_loop_frame)
  then have dir: "\<exists>d. dirs (snd (apply_loop p (skillsDir fs) skills ?fresh)) (Path p) = Present d \<and>
      mode d = 493 \<and> readable d \<and> writable d"
    by (auto simp: same_but_entries_def)
  have links: "lookup_entry (snd (apply_loop p (skillsDir fs) skills ?fresh)) (Path p) (Name s) =
      Some (Link (link_target p (skillsDir fs) (Name s)))"
    if dist: "distinct (map Name skills)" and s: "s \<in> set skills"
      and want: "Selected s \<and> \<not> Linked s" for s
    unfolding apply_loop_lookup [OF dist] find_distinct_name [OF dist s]
    using want by (simp add: item_result_def lookup_entry_def dir_writable_def)
  from sealed run dir links show ?thesis by simp
qed

theorem unconfigured_provider_created_witness:
  "\<not> Configured claude_unconfigured \<and>
   dirs unconfigured_fs (Path claude_unconfigured) = Missing \<and>
   creatable unconfigured_fs (Path claude_unconfigured) \<and>
   dirs (snd (applySkillChanges claude_unconfigured
                (select (wanted [''vue-testing''])
                   (loadSkillsForProvider claude_unconfigured unconfigured_fs))
                unconfigured_fs)) (Path claude_unconfigured) =
     Present \<lparr>readable = True, writable = True, mode = 493,
              entries = [(''vue-testing'', Link ''../../.agents/skills/vue-testing'')]\<rparr>"
  using unconfigured_provider_created [of claude_unconfigured unconfigured_fs
      "select (wanted [''vue-testing''])
         (loadSkillsForProvider claude_unconfigured unconfigured_fs)"]
  by (simp add: run_defs example_defs)

text \<open>
  The claim as the specification words it fails where the directory cannot be created:
  the run does not create it, the link for the selected skill is not made, and nothing
  tells the caller.
\<close>

theorem directory_not_created_counterexample:
  "\<not> Configured claude_unconfigured \<and>
   dirs sealed_fs (Path claude_unconfigured) = Missing \<and>
   item_errors claude_unconfigured
     (select (wanted [''vue-testing''])
        (loadSkillsForProvider claude_unconfigured sealed_fs)) sealed_fs =
     [None, None, None, Some ENOENT] \<and>
   applySkillChanges claude_unconfigured
     (select (wanted [''vue-testing''])
        (loadSkillsForProvider claude_unconfigured sealed_fs)) sealed_fs = ((), sealed_fs) \<and>
   dirs (snd (applySkillChanges claude_unconfigured
                (select (wanted [''vue-testing''])
                   (loadSkillsForProvider claude_unconfigured sealed_fs)) sealed_fs))
     (Path claude_unconfigured) = Missing"
  by (simp add: run_defs example_defs)


end
